theory Spec2Isabelle
  imports Main "HOL-Library.Word"
begin

section \<open>Bytes and the fixed-point codec of liballuris.c\<close>

type_synonym byte = "8 word"

text \<open>
  \<^verbatim>\<open>static short char_to_uint16 (unsigned char* in)\<close>: two bytes are copied into a
  \<^verbatim>\<open>short\<close>, which they fill completely. The host is little-endian (the code copies
  raw object representations with \<^verbatim>\<open>memcpy\<close>); a pointer into a buffer is the list
  of bytes from that position on.
\<close>

definition char_to_uint16 :: "byte list \<Rightarrow> int" where
  "char_to_uint16 inp =
     sint (word_of_int (uint (inp ! 0) + 256 * uint (inp ! 1)) :: 16 word)"

text \<open>\<^verbatim>\<open>memcpy (dst + off, src, n)\<close> on a buffer held as a list.\<close>

definition memcpy_at :: "byte list \<Rightarrow> nat \<Rightarrow> byte list \<Rightarrow> nat \<Rightarrow> byte list" where
  "memcpy_at dst off src n = take off dst @ take n src @ drop (off + n) dst"

text \<open>
  The object representation of a C \<^verbatim>\<open>int\<close> (four bytes, little-endian), as
  \<^verbatim>\<open>memcpy\<close> reads it (\<open>int_bytes\<close>) and writes it (\<open>bytes_int\<close>).
\<close>

definition int_bytes :: "int \<Rightarrow> byte list" where
  "int_bytes v =
     (let w = (word_of_int v :: 32 word)
      in [ucast w, ucast (drop_bit 8 w), ucast (drop_bit 16 w), ucast (drop_bit 24 w)])"

definition bytes_int :: "byte list \<Rightarrow> int" where
  "bytes_int bs =
     sint (word_of_int (uint (bs ! 0) + 256 * uint (bs ! 1) + 65536 * uint (bs ! 2)
                        + 16777216 * uint (bs ! 3)) :: 32 word)"

text \<open>
  \<^verbatim>\<open>static int char_to_uint24 (unsigned char* in) { int ret; memcpy (&ret, in, 3); return ret; }\<close>
  The local \<^verbatim>\<open>ret\<close> has no initialiser and \<^verbatim>\<open>memcpy\<close> overwrites three of its
  four bytes. The argument \<open>ret\<close> is the value the object holds when the function is
  entered (whatever the stack contained); its high-order byte survives the copy.
\<close>

definition char_to_uint24 :: "int \<Rightarrow> byte list \<Rightarrow> int" where
  "char_to_uint24 ret inp = bytes_int (memcpy_at (int_bytes ret) 0 inp 3)"

definition char_to_int24 :: "int \<Rightarrow> byte list \<Rightarrow> int" where
  "char_to_int24 ret0 inp =
     (let ret = char_to_uint24 ret0 inp
      in if ret > 8388607 then ret - 16777216 else ret)"

section \<open>Constants of the headers\<close>

text \<open>
  \<^verbatim>\<open>liballuris.h\<close> fixes the capacities of the two transfer buffers, the default
  timeouts and the layout of \<^verbatim>\<open>struct liballuris_state\<close>. The functions below do not
  depend on the particular values: the capacities, the timeouts and the position of
  the \<^verbatim>\<open>measuring\<close> flag are parameters of the model.
\<close>

record header =
  DEFAULT_SEND_BUF_LEN :: int
  DEFAULT_RECV_BUF_LEN :: int
  DEFAULT_SEND_TIMEOUT :: nat
  DEFAULT_RECEIVE_TIMEOUT :: nat
  measuring_bit :: nat

text \<open>Return codes of libusb-1.0 that the code names.\<close>

definition LIBUSB_SUCCESS :: int where "LIBUSB_SUCCESS = 0"
definition LIBUSB_ERROR_OVERFLOW :: int where "LIBUSB_ERROR_OVERFLOW = - 8"

definition LIBALLURIS_SUCCESS :: int where
  \<comment> \<open>Modelled from the spec: \<^verbatim>\<open>enum liballuris_error\<close> of liballuris.h is missing;
      success is 0.\<close>
  "LIBALLURIS_SUCCESS = 0"

definition LIBALLURIS_MALFORMED_REPLY :: int where
  \<comment> \<open>Modelled from the spec: \<^verbatim>\<open>enum liballuris_error\<close> of liballuris.h is missing;
      the library's own codes are small positive integers distinct from 0.\<close>
  "LIBALLURIS_MALFORMED_REPLY = 1"

definition LIBALLURIS_DEVICE_BUSY :: int where
  \<comment> \<open>Modelled from the spec: \<^verbatim>\<open>enum liballuris_error\<close> of liballuris.h is missing;
      the command line tools exit with 2 on device-busy.\<close>
  "LIBALLURIS_DEVICE_BUSY = 2"

definition LIBALLURIS_OUT_OF_RANGE :: int where
  \<comment> \<open>Modelled from the spec: \<^verbatim>\<open>enum liballuris_error\<close> of liballuris.h is missing;
      the command line tools exit with 4 on out-of-range.\<close>
  "LIBALLURIS_OUT_OF_RANGE = 4"

section \<open>The process state and the USB transport\<close>

text \<open>
  One call of \<^verbatim>\<open>libusb_bulk_transfer\<close> yields a return code, the number of bytes it
  reports in \<^verbatim>\<open>actual\<close> and, on the IN endpoint, the bytes the device delivered.
\<close>

datatype xfer = Xfer (xfer_r: int) (xfer_actual: int) (xfer_data: "byte list")

datatype diag =
    Write_Error | Overflow_Error | Read_Error | Malformed_Reply_Error
  | Packetlen_Range_Error | Mode_Range_Error

datatype event =
    Bulk_Out "byte list" nat
  | Bulk_In int nat
  | Usleep nat
  | Stderr diag

text \<open>
  The two global transfer buffers, the device and host controller (\<open>usb\<close>: the outcome
  of the \<open>i\<close>-th transfer the process issues), uninitialised automatic storage
  (\<open>uninit\<close>: the value found in the \<open>i\<close>-th object that is read before being fully
  written) and everything the process has done so far (\<open>trace\<close>).
\<close>

record world =
  out_buf :: "byte list"
  in_buf :: "byte list"
  usb :: "nat \<Rightarrow> xfer"
  ncalls :: nat
  uninit :: "nat \<Rightarrow> int"
  nuninit :: nat
  trace :: "event list"

datatype fatal = Exit_Failure | Assert_Failed

definition emit :: "event \<Rightarrow> world \<Rightarrow> world" where
  "emit e w = w\<lparr>trace := trace w @ [e]\<rparr>"

definition read_uninit :: "world \<Rightarrow> int \<times> world" where
  "read_uninit w = (uninit w (nuninit w), w\<lparr>nuninit := Suc (nuninit w)\<rparr>)"

text \<open>\<^verbatim>\<open>libusb_bulk_transfer\<close> on endpoint 0x01 (OUT): returns \<open>(r, actual, world)\<close>.\<close>

definition libusb_bulk_transfer_out :: "int \<Rightarrow> nat \<Rightarrow> world \<Rightarrow> int \<times> int \<times> world" where
  "libusb_bulk_transfer_out len timeout w =
     (let x = usb w (ncalls w)
      in (xfer_r x, xfer_actual x,
          emit (Bulk_Out (take (nat len) (out_buf w)) timeout) (w\<lparr>ncalls := Suc (ncalls w)\<rparr>)))"

text \<open>
  \<^verbatim>\<open>libusb_bulk_transfer\<close> on endpoint 0x81 (IN): at most \<open>len\<close> bytes of what the
  device delivers land at the start of \<^verbatim>\<open>in_buf\<close>; the rest of the buffer keeps its
  old contents.
\<close>

definition libusb_bulk_transfer_in :: "int \<Rightarrow> nat \<Rightarrow> world \<Rightarrow> int \<times> int \<times> world" where
  "libusb_bulk_transfer_in len timeout w =
     (let x = usb w (ncalls w);
          d = take (nat len) (xfer_data x)
      in (xfer_r x, xfer_actual x,
          emit (Bulk_In len timeout)
            (w\<lparr>in_buf := memcpy_at (in_buf w) 0 d (length d), ncalls := Suc (ncalls w)\<rparr>)))"

section \<open>The transaction primitive\<close>

text \<open>
  Lines 142 to 177 of \<^verbatim>\<open>liballuris_device_bulk_transfer\<close>: the receive phase and the
  check of the reply. \<open>r\<close> is the value the variable holds when the phase is reached.
\<close>

definition bulk_transfer_receive :: "int \<Rightarrow> int \<Rightarrow> int \<Rightarrow> nat \<Rightarrow> world \<Rightarrow> int \<times> world" where
  "bulk_transfer_receive r send_len reply_len receive_timeout w =
     (if reply_len > 0 then
        (case libusb_bulk_transfer_in reply_len receive_timeout w of
           (r, actual, w1) \<Rightarrow>
             if (r \<noteq> LIBUSB_SUCCESS \<or> actual \<noteq> reply_len) \<and> r = LIBUSB_ERROR_OVERFLOW
             then (r, emit (Stderr Overflow_Error) w1)
             else
               let w2 = (if r \<noteq> LIBUSB_SUCCESS \<or> actual \<noteq> reply_len
                         then emit (Stderr Read_Error) w1 else w1)
               in if r = 0 \<and> send_len > 0
                     \<and> (in_buf w2 ! 0 \<noteq> out_buf w2 ! 0 \<or> uint (in_buf w2 ! 1) \<noteq> actual)
                  then (LIBALLURIS_MALFORMED_REPLY, emit (Stderr Malformed_Reply_Error) w2)
                  else (r, w2))
      else (r, w))"

text \<open>
  \<^verbatim>\<open>liballuris_device_bulk_transfer\<close>. \<^verbatim>\<open>exit (-1)\<close> and a failed \<^verbatim>\<open>assert\<close> end
  the process: they are the \<open>Inl\<close> results, which carry no state. The debug output
  under \<^verbatim>\<open>PRINT_DEBUG_MSG\<close> is left out.
\<close>

definition liballuris_device_bulk_transfer ::
    "header \<Rightarrow> int \<Rightarrow> nat \<Rightarrow> int \<Rightarrow> nat \<Rightarrow> world \<Rightarrow> fatal + int \<times> world" where
  "liballuris_device_bulk_transfer h send_len send_timeout reply_len receive_timeout w =
     (if send_len > DEFAULT_SEND_BUF_LEN h then Inl Exit_Failure
      else if reply_len > DEFAULT_RECV_BUF_LEN h then Inl Exit_Failure
      else if send_len > 0 then
        (if uint (out_buf w ! 1) \<noteq> send_len then Inl Assert_Failed
         else
           (case libusb_bulk_transfer_out send_len send_timeout w of
              (r, actual, w1) \<Rightarrow>
                if r \<noteq> LIBUSB_SUCCESS \<or> actual \<noteq> send_len
                then Inr (r, emit (Stderr Write_Error) w1)
                else Inr (bulk_transfer_receive r send_len reply_len receive_timeout w1)))
      else Inr (bulk_transfer_receive 0 send_len reply_len receive_timeout w))"

section \<open>Formatted output\<close>

text \<open>
  \<^verbatim>\<open>snprintf (buf, length, "%c.%i", c, i)\<close>: the decimal digits of an \<^verbatim>\<open>int\<close>, and the
  write of at most \<open>length - 1\<close> characters followed by a NUL (nothing when
  \<open>length\<close> is 0).
\<close>

fun dec_digits :: "nat \<Rightarrow> byte list" where
  "dec_digits n =
     (if n < 10 then [48 + of_nat n] else dec_digits (n div 10) @ [48 + of_nat (n mod 10)])"

declare dec_digits.simps [simp del]

definition format_i :: "int \<Rightarrow> byte list" where
  "format_i v = (if v < 0 then 45 # dec_digits (nat (- v)) else dec_digits (nat v))"

definition snprintf :: "byte list \<Rightarrow> nat \<Rightarrow> byte list \<Rightarrow> byte list" where
  "snprintf buf n s =
     (if n = 0 then buf
      else let t = take (n - 1) s @ [0] in memcpy_at buf 0 t (length t))"

section \<open>The commands\<close>

text \<open>
  Each command writes its frame into \<^verbatim>\<open>out_buf\<close>, runs one transaction and decodes
  the reply from \<^verbatim>\<open>in_buf\<close>. Output parameters are passed in with the value the
  caller's object holds and are returned with the value it holds afterwards.
\<close>

definition liballuris_serial_number ::
    "header \<Rightarrow> byte list \<Rightarrow> nat \<Rightarrow> world \<Rightarrow> fatal + int \<times> byte list \<times> world" where
  "liballuris_serial_number h buf len w =
     (let w0 = w\<lparr>out_buf := (out_buf w)[0 := 0x08, 1 := 3, 2 := 6]\<rparr>
      in case liballuris_device_bulk_transfer h 3 (DEFAULT_SEND_TIMEOUT h) 6
                (DEFAULT_RECEIVE_TIMEOUT h) w0 of
           Inl f \<Rightarrow> Inl f
         | Inr (ret, w1) \<Rightarrow>
             if ret = LIBALLURIS_SUCCESS then
               (let tmp = char_to_uint16 (drop 3 (in_buf w1))
                in if tmp = - 1 then Inr (LIBALLURIS_DEVICE_BUSY, buf, w1)
                   else Inr (ret, snprintf buf len ((in_buf w1 ! 5 + 65) # 46 # format_i tmp), w1))
             else Inr (ret, buf, w1))"

definition liballuris_digits :: "header \<Rightarrow> int \<Rightarrow> world \<Rightarrow> fatal + int \<times> int \<times> world" where
  "liballuris_digits h v w =
     (let w0 = w\<lparr>out_buf := (out_buf w)[0 := 0x08, 1 := 3, 2 := 3]\<rparr>
      in case liballuris_device_bulk_transfer h 3 (DEFAULT_SEND_TIMEOUT h) 6
                (DEFAULT_RECEIVE_TIMEOUT h) w0 of
           Inl f \<Rightarrow> Inl f
         | Inr (ret, w1) \<Rightarrow>
             if ret = LIBALLURIS_SUCCESS then
               (case read_uninit w1 of
                  (ret0, w2) \<Rightarrow>
                    let v' = char_to_int24 ret0 (drop 3 (in_buf w2))
                    in if v' = - 1 then Inr (LIBALLURIS_DEVICE_BUSY, v', w2)
                       else Inr (ret, v', w2))
             else Inr (ret, v, w1))"

text \<open>
  \<^verbatim>\<open>liballuris_raw_value\<close>, \<^verbatim>\<open>liballuris_raw_pos_peak\<close> and
  \<^verbatim>\<open>liballuris_raw_neg_peak\<close>: opcode \<open>46\<close> with sub-selectors 3, 4 and 5.
\<close>

definition liballuris_raw_value :: "header \<Rightarrow> int \<Rightarrow> world \<Rightarrow> fatal + int \<times> int \<times> world" where
  "liballuris_raw_value h v w =
     (let w0 = w\<lparr>out_buf := (out_buf w)[0 := 0x46, 1 := 3, 2 := 3]\<rparr>
      in case liballuris_device_bulk_transfer h 3 (DEFAULT_SEND_TIMEOUT h) 6
                (DEFAULT_RECEIVE_TIMEOUT h) w0 of
           Inl f \<Rightarrow> Inl f
         | Inr (ret, w1) \<Rightarrow>
             if ret = LIBALLURIS_SUCCESS then
               (case read_uninit w1 of
                  (ret0, w2) \<Rightarrow> Inr (ret, char_to_int24 ret0 (drop 3 (in_buf w2)), w2))
             else Inr (ret, v, w1))"

definition liballuris_raw_pos_peak :: "header \<Rightarrow> int \<Rightarrow> world \<Rightarrow> fatal + int \<times> int \<times> world" where
  "liballuris_raw_pos_peak h v w =
     (let w0 = w\<lparr>out_buf := (out_buf w)[0 := 0x46, 1 := 3, 2 := 4]\<rparr>
      in case liballuris_device_bulk_transfer h 3 (DEFAULT_SEND_TIMEOUT h) 6
                (DEFAULT_RECEIVE_TIMEOUT h) w0 of
           Inl f \<Rightarrow> Inl f
         | Inr (ret, w1) \<Rightarrow>
             if ret = LIBALLURIS_SUCCESS then
               (case read_uninit w1 of
                  (ret0, w2) \<Rightarrow> Inr (ret, char_to_int24 ret0 (drop 3 (in_buf w2)), w2))
             else Inr (ret, v, w1))"

definition liballuris_raw_neg_peak :: "header \<Rightarrow> int \<Rightarrow> world \<Rightarrow> fatal + int \<times> int \<times> world" where
  "liballuris_raw_neg_peak h v w =
     (let w0 = w\<lparr>out_buf := (out_buf w)[0 := 0x46, 1 := 3, 2 := 5]\<rparr>
      in case liballuris_device_bulk_transfer h 3 (DEFAULT_SEND_TIMEOUT h) 6
                (DEFAULT_RECEIVE_TIMEOUT h) w0 of
           Inl f \<Rightarrow> Inl f
         | Inr (ret, w1) \<Rightarrow>
             if ret = LIBALLURIS_SUCCESS then
               (case read_uninit w1 of
                  (ret0, w2) \<Rightarrow> Inr (ret, char_to_int24 ret0 (drop 3 (in_buf w2)), w2))
             else Inr (ret, v, w1))"

text \<open>
  \<^verbatim>\<open>liballuris_read_state\<close>. The state is kept as the integer view of
  \<^verbatim>\<open>union __liballuris_state__\<close>; \<open>measuring\<close> reads the flag of that name.
\<close>

definition measuring :: "header \<Rightarrow> int \<Rightarrow> bool" where
  "measuring h state = bit state (measuring_bit h)"

definition liballuris_read_state ::
    "header \<Rightarrow> int \<Rightarrow> nat \<Rightarrow> world \<Rightarrow> fatal + int \<times> int \<times> world" where
  "liballuris_read_state h state timeout w =
     (let w0 = w\<lparr>out_buf := (out_buf w)[0 := 0x46, 1 := 3, 2 := 2]\<rparr>
      in case liballuris_device_bulk_transfer h 3 (DEFAULT_SEND_TIMEOUT h) 6 timeout w0 of
           Inl f \<Rightarrow> Inl f
         | Inr (ret, w1) \<Rightarrow>
             if ret = LIBALLURIS_SUCCESS then
               (case read_uninit w1 of
                  (ret0, w2) \<Rightarrow> Inr (ret, char_to_int24 ret0 (drop 3 (in_buf w2)), w2))
             else Inr (ret, state, w1))"

text \<open>\<^verbatim>\<open>liballuris_cyclic_measurement\<close>; \<open>len\<close> is a \<^verbatim>\<open>size_t\<close>.\<close>

definition liballuris_cyclic_measurement ::
    "header \<Rightarrow> int \<Rightarrow> nat \<Rightarrow> world \<Rightarrow> fatal + int \<times> world" where
  "liballuris_cyclic_measurement h enable len w =
     (if len < 0 \<or> len > 19
      then Inr (LIBALLURIS_OUT_OF_RANGE, emit (Stderr Packetlen_Range_Error) w)
      else
        let w0 = w\<lparr>out_buf := (out_buf w)[0 := 0x01, 1 := 4,
                                           2 := (if enable \<noteq> 0 then 2 else 0), 3 := of_nat len]\<rparr>
        in liballuris_device_bulk_transfer h 4 (DEFAULT_SEND_TIMEOUT h) 4
             (DEFAULT_RECEIVE_TIMEOUT h) w0)"

text \<open>
  \<^verbatim>\<open>liballuris_poll_measurement\<close>. \<^verbatim>\<open>size_t len = 5 + length * 3\<close> is computed in
  64 bits and passed as an \<^verbatim>\<open>int\<close> of 32 bits. The loop stores each decoded sample
  in the caller's array.
\<close>

definition size_t_to_int :: "nat \<Rightarrow> int" where
  "size_t_to_int n = sint (word_of_nat (n mod 2 ^ 64) :: 32 word)"

function decode_samples :: "nat \<Rightarrow> nat \<Rightarrow> int list \<Rightarrow> world \<Rightarrow> int list \<times> world" where
  "decode_samples k len buf w =
     (if k < len then
        decode_samples (Suc k) len
          (buf[k := char_to_int24 (fst (read_uninit w)) (drop (5 + k * 3) (in_buf w))])
          (snd (read_uninit w))
      else (buf, w))"
  by pat_completeness auto
termination
  by (relation "measure (\<lambda>(k, len, buf, w). len - k)") auto

declare decode_samples.simps [simp del]

definition liballuris_poll_measurement ::
    "header \<Rightarrow> int list \<Rightarrow> nat \<Rightarrow> world \<Rightarrow> fatal + int \<times> int list \<times> world" where
  "liballuris_poll_measurement h buf len w =
     (case liballuris_device_bulk_transfer h 0 0 (size_t_to_int (5 + len * 3)) 2100 w of
        Inl f \<Rightarrow> Inl f
      | Inr (ret, w1) \<Rightarrow>
          (case decode_samples 0 len buf w1 of (buf', w2) \<Rightarrow> Inr (ret, buf', w2)))"

text \<open>\<^verbatim>\<open>liballuris_tare\<close>, \<^verbatim>\<open>liballuris_clear_pos_peak\<close>, \<^verbatim>\<open>liballuris_clear_neg_peak\<close>.\<close>

definition liballuris_tare :: "header \<Rightarrow> world \<Rightarrow> fatal + int \<times> world" where
  "liballuris_tare h w =
     liballuris_device_bulk_transfer h 3 (DEFAULT_SEND_TIMEOUT h) 3 (DEFAULT_RECEIVE_TIMEOUT h)
       (w\<lparr>out_buf := (out_buf w)[0 := 0x15, 1 := 3, 2 := 0]\<rparr>)"

definition liballuris_clear_pos_peak :: "header \<Rightarrow> world \<Rightarrow> fatal + int \<times> world" where
  "liballuris_clear_pos_peak h w =
     liballuris_device_bulk_transfer h 3 (DEFAULT_SEND_TIMEOUT h) 3 (DEFAULT_RECEIVE_TIMEOUT h)
       (w\<lparr>out_buf := (out_buf w)[0 := 0x15, 1 := 3, 2 := 1]\<rparr>)"

definition liballuris_clear_neg_peak :: "header \<Rightarrow> world \<Rightarrow> fatal + int \<times> world" where
  "liballuris_clear_neg_peak h w =
     liballuris_device_bulk_transfer h 3 (DEFAULT_SEND_TIMEOUT h) 3 (DEFAULT_RECEIVE_TIMEOUT h)
       (w\<lparr>out_buf := (out_buf w)[0 := 0x15, 1 := 3, 2 := 2]\<rparr>)"

text \<open>
  The polling loops of \<^verbatim>\<open>liballuris_start_measurement\<close> and
  \<^verbatim>\<open>liballuris_stop_measurement\<close>:
  \<^verbatim>\<open>do { timeout--; ret = liballuris_read_state (...); if (...) usleep (20000); }
  while (!ret && timeout && ...)\<close>.
  The counter is the 32-bit \<^verbatim>\<open>int timeout\<close>; the arguments are the values of
  \<^verbatim>\<open>timeout\<close> and \<^verbatim>\<open>state\<close> on entry to the loop body, the result the values of
  \<^verbatim>\<open>ret\<close> and \<^verbatim>\<open>timeout\<close> when the loop is left.
\<close>

lemma unat_pred_less: "x \<noteq> 0 \<Longrightarrow> unat (x - 1) < unat (x :: 32 word)"
  by (metis diff_less_mono2 diff_zero unat_minus_one zero_less_one
        unat_gt_0)

lemma unat_pred_less': "timeout \<noteq> 1 \<Longrightarrow> unat (timeout - 2) < unat (timeout - 1 :: 32 word)"
  using unat_pred_less [of "timeout - 1"] by simp

function start_loop ::
    "header \<Rightarrow> 32 word \<Rightarrow> int \<Rightarrow> world \<Rightarrow> fatal + int \<times> 32 word \<times> world" where
  "start_loop h timeout state w =
     (case liballuris_read_state h state 600 w of
        Inl f \<Rightarrow> Inl f
      | Inr (ret, state1, w1) \<Rightarrow>
          let w2 = (if \<not> measuring h state1 then emit (Usleep 20000) w1 else w1)
          in if ret = 0 \<and> timeout - 1 \<noteq> 0 \<and> \<not> measuring h state1
             then start_loop h (timeout - 1) state1 w2
             else Inr (ret, timeout - 1, w2))"
  by pat_completeness auto
termination
  by (relation "measure (\<lambda>(h, timeout, state, w). unat (timeout - 1))")
     (auto simp add: unat_pred_less')

declare start_loop.simps [simp del]

function stop_loop ::
    "header \<Rightarrow> 32 word \<Rightarrow> int \<Rightarrow> world \<Rightarrow> fatal + int \<times> 32 word \<times> world" where
  "stop_loop h timeout state w =
     (case liballuris_read_state h state 200 w of
        Inl f \<Rightarrow> Inl f
      | Inr (ret, state1, w1) \<Rightarrow>
          let w2 = (if measuring h state1 then emit (Usleep 20000) w1 else w1)
          in if ret = 0 \<and> timeout - 1 \<noteq> 0 \<and> measuring h state1
             then stop_loop h (timeout - 1) state1 w2
             else Inr (ret, timeout - 1, w2))"
  by pat_completeness auto
termination
  by (relation "measure (\<lambda>(h, timeout, state, w). unat (timeout - 1))")
     (auto simp add: unat_pred_less')

declare stop_loop.simps [simp del]

text \<open>
  \<^verbatim>\<open>struct liballuris_state state;\<close> has no initialiser: until the first
  successful read it holds what the stack held.
\<close>

definition liballuris_start_measurement :: "header \<Rightarrow> world \<Rightarrow> fatal + int \<times> world" where
  "liballuris_start_measurement h w =
     (let w0 = w\<lparr>out_buf := (out_buf w)[0 := 0x1C, 1 := 3, 2 := 1]\<rparr>
      in case liballuris_device_bulk_transfer h 3 (DEFAULT_SEND_TIMEOUT h) 3
                (DEFAULT_RECEIVE_TIMEOUT h) w0 of
           Inl f \<Rightarrow> Inl f
         | Inr (ret, w1) \<Rightarrow>
             if ret = LIBALLURIS_SUCCESS then
               (case read_uninit w1 of
                  (state, w2) \<Rightarrow>
                    (case start_loop h 20 state w2 of
                       Inl f \<Rightarrow> Inl f
                     | Inr (ret', timeout, w3) \<Rightarrow>
                         Inr (if timeout = 0 then LIBALLURIS_DEVICE_BUSY else ret', w3)))
             else Inr (ret, w1))"

definition liballuris_stop_measurement :: "header \<Rightarrow> world \<Rightarrow> fatal + int \<times> world" where
  "liballuris_stop_measurement h w =
     (let w0 = w\<lparr>out_buf := (out_buf w)[0 := 0x1C, 1 := 3, 2 := 0]\<rparr>
      in case liballuris_device_bulk_transfer h 3 (DEFAULT_SEND_TIMEOUT h) 3
                (DEFAULT_RECEIVE_TIMEOUT h) w0 of
           Inl f \<Rightarrow> Inl f
         | Inr (ret, w1) \<Rightarrow>
             if ret = LIBUSB_SUCCESS then
               (case read_uninit w1 of
                  (state, w2) \<Rightarrow>
                    (case stop_loop h 10 state w2 of
                       Inl f \<Rightarrow> Inl f
                     | Inr (ret', timeout, w3) \<Rightarrow>
                         Inr (if timeout = 0 then LIBALLURIS_DEVICE_BUSY else ret', w3)))
             else Inr (ret, w1))"

text \<open>
  The limit setters copy the three low-order bytes of \<^verbatim>\<open>limit\<close> into the frame and
  use a receive timeout of 500 ms.
\<close>

definition liballuris_set_pos_limit :: "header \<Rightarrow> int \<Rightarrow> world \<Rightarrow> fatal + int \<times> world" where
  "liballuris_set_pos_limit h limit w =
     liballuris_device_bulk_transfer h 6 (DEFAULT_SEND_TIMEOUT h) 6 500
       (w\<lparr>out_buf := memcpy_at ((out_buf w)[0 := 0x18, 1 := 6, 2 := 0]) 3 (int_bytes limit) 3\<rparr>)"

definition liballuris_set_neg_limit :: "header \<Rightarrow> int \<Rightarrow> world \<Rightarrow> fatal + int \<times> world" where
  "liballuris_set_neg_limit h limit w =
     liballuris_device_bulk_transfer h 6 (DEFAULT_SEND_TIMEOUT h) 6 500
       (w\<lparr>out_buf := memcpy_at ((out_buf w)[0 := 0x18, 1 := 6, 2 := 1]) 3 (int_bytes limit) 3\<rparr>)"

text \<open>
  \<^verbatim>\<open>liballuris_get_pos_limit\<close> and \<^verbatim>\<open>liballuris_get_neg_limit\<close> declare and send
  six bytes, of which they set the first three.
\<close>

definition liballuris_get_pos_limit :: "header \<Rightarrow> int \<Rightarrow> world \<Rightarrow> fatal + int \<times> int \<times> world" where
  "liballuris_get_pos_limit h v w =
     (let w0 = w\<lparr>out_buf := (out_buf w)[0 := 0x19, 1 := 6, 2 := 0]\<rparr>
      in case liballuris_device_bulk_transfer h 6 (DEFAULT_SEND_TIMEOUT h) 6
                (DEFAULT_RECEIVE_TIMEOUT h) w0 of
           Inl f \<Rightarrow> Inl f
         | Inr (ret, w1) \<Rightarrow>
             if ret = LIBALLURIS_SUCCESS then
               (case read_uninit w1 of
                  (ret0, w2) \<Rightarrow> Inr (ret, char_to_int24 ret0 (drop 3 (in_buf w2)), w2))
             else Inr (ret, v, w1))"

definition liballuris_get_neg_limit :: "header \<Rightarrow> int \<Rightarrow> world \<Rightarrow> fatal + int \<times> int \<times> world" where
  "liballuris_get_neg_limit h v w =
     (let w0 = w\<lparr>out_buf := (out_buf w)[0 := 0x19, 1 := 6, 2 := 1]\<rparr>
      in case liballuris_device_bulk_transfer h 6 (DEFAULT_SEND_TIMEOUT h) 6
                (DEFAULT_RECEIVE_TIMEOUT h) w0 of
           Inl f \<Rightarrow> Inl f
         | Inr (ret, w1) \<Rightarrow>
             if ret = LIBALLURIS_SUCCESS then
               (case read_uninit w1 of
                  (ret0, w2) \<Rightarrow> Inr (ret, char_to_int24 ret0 (drop 3 (in_buf w2)), w2))
             else Inr (ret, v, w1))"

text \<open>
  \<^verbatim>\<open>liballuris_set_mode\<close> and \<^verbatim>\<open>liballuris_get_mode\<close>; a value of
  \<^verbatim>\<open>enum liballuris_measurement_mode\<close> is its integer.
\<close>

definition liballuris_set_mode :: "header \<Rightarrow> int \<Rightarrow> world \<Rightarrow> fatal + int \<times> world" where
  "liballuris_set_mode h mode w =
     (if mode < 0 \<or> mode > 3
      then Inr (LIBALLURIS_OUT_OF_RANGE, emit (Stderr Mode_Range_Error) w)
      else
        let w0 = w\<lparr>out_buf := (out_buf w)[0 := 0x04, 1 := 3, 2 := word_of_int mode]\<rparr>
        in case liballuris_device_bulk_transfer h 3 (DEFAULT_SEND_TIMEOUT h) 3
                  (DEFAULT_RECEIVE_TIMEOUT h) w0 of
             Inl f \<Rightarrow> Inl f
           | Inr (ret, w1) \<Rightarrow>
               if uint (in_buf w1 ! 2) \<noteq> mode then Inr (LIBALLURIS_DEVICE_BUSY, w1)
               else Inr (ret, w1))"

definition liballuris_get_mode :: "header \<Rightarrow> int \<Rightarrow> world \<Rightarrow> fatal + int \<times> int \<times> world" where
  "liballuris_get_mode h mode w =
     (let w0 = w\<lparr>out_buf := (out_buf w)[0 := 0x05, 1 := 2]\<rparr>
      in case liballuris_device_bulk_transfer h 2 (DEFAULT_SEND_TIMEOUT h) 3
                (DEFAULT_RECEIVE_TIMEOUT h) w0 of
           Inl f \<Rightarrow> Inl f
         | Inr (ret, w1) \<Rightarrow>
             if ret = LIBALLURIS_SUCCESS then Inr (ret, uint (in_buf w1 ! 2), w1)
             else Inr (ret, mode, w1))"

section \<open>Well-formed configurations and what a transaction leaves alone\<close>

text \<open>
  The largest frame the library builds and the largest fixed reply it asks for have
  six bytes, and the capacities are C \<^verbatim>\<open>int\<close> constants: a header the library's own
  commands can run with satisfies \<open>wf_header\<close>. The two global buffers are declared
  with these capacities (\<open>wf_world\<close>).
\<close>

definition wf_header :: "header \<Rightarrow> bool" where
  "wf_header h \<longleftrightarrow>
     6 \<le> DEFAULT_SEND_BUF_LEN h \<and> DEFAULT_SEND_BUF_LEN h \<le> 2147483647 \<and>
     6 \<le> DEFAULT_RECV_BUF_LEN h \<and> DEFAULT_RECV_BUF_LEN h \<le> 2147483647"

definition wf_world :: "header \<Rightarrow> world \<Rightarrow> bool" where
  "wf_world h w \<longleftrightarrow>
     int (length (out_buf w)) = DEFAULT_SEND_BUF_LEN h \<and>
     int (length (in_buf w)) = DEFAULT_RECV_BUF_LEN h"

lemma emit_simps [simp]:
  "out_buf (emit e w) = out_buf w" "in_buf (emit e w) = in_buf w"
  "usb (emit e w) = usb w" "ncalls (emit e w) = ncalls w"
  "uninit (emit e w) = uninit w" "nuninit (emit e w) = nuninit w"
  "trace (emit e w) = trace w @ [e]"
  by (simp_all add: emit_def)

definition kept :: "world \<Rightarrow> world \<Rightarrow> bool" where
  "kept w w' \<longleftrightarrow>
     out_buf w' = out_buf w \<and> length (in_buf w') = length (in_buf w) \<and> usb w' = usb w \<and>
     uninit w' = uninit w \<and> nuninit w' = nuninit w \<and> ncalls w \<le> ncalls w' \<and>
     (\<exists>es. trace w' = trace w @ es)"

lemma kept_refl: "kept w w"
  by (simp add: kept_def)

lemma kept_emit: "kept w w' \<Longrightarrow> kept w (emit e w')"
  by (auto simp add: kept_def)

lemma kept_trans: "kept w w' \<Longrightarrow> kept w' w'' \<Longrightarrow> kept w w''"
  by (auto simp add: kept_def)

lemma kept_out: "libusb_bulk_transfer_out len t w = (r, a, w') \<Longrightarrow> kept w w'"
  by (auto simp add: libusb_bulk_transfer_out_def Let_def kept_def)

lemma kept_in:
  "libusb_bulk_transfer_in len t w = (r, a, w') \<Longrightarrow> len \<le> int (length (in_buf w)) \<Longrightarrow> kept w w'"
  by (auto simp add: libusb_bulk_transfer_in_def Let_def kept_def memcpy_at_def)

lemma bulk_transfer_receive_kept:
  assumes "bulk_transfer_receive r sl rl rt w = (r', w')"
    and "rl \<le> int (length (in_buf w))"
  shows "kept w w'"
proof (cases "0 < rl")
  case False
  with assms show ?thesis by (simp add: bulk_transfer_receive_def kept_refl)
next
  case True
  obtain r1 a1 w1 where i: "libusb_bulk_transfer_in rl rt w = (r1, a1, w1)"
    by (cases "libusb_bulk_transfer_in rl rt w") auto
  have k: "kept w w1" using kept_in [OF i assms(2)] .
  from assms(1) True i have "w' = w1 \<or> (\<exists>e. w' = emit e w1) \<or> (\<exists>e e'. w' = emit e (emit e' w1))"
    by (simp add: bulk_transfer_receive_def Let_def split: if_splits) blast+
  with k show ?thesis by (auto intro: kept_emit)
qed

lemma bulk_transfer_Inl:
  "liballuris_device_bulk_transfer h sl st rl rt w = Inl f \<Longrightarrow>
     (f = Exit_Failure \<and> (sl > DEFAULT_SEND_BUF_LEN h \<or> rl > DEFAULT_RECV_BUF_LEN h))
     \<or> (f = Assert_Failed \<and> 0 < sl \<and> uint (out_buf w ! 1) \<noteq> sl)"
  by (simp add: liballuris_device_bulk_transfer_def split: if_splits prod.splits)

lemma bulk_transfer_kept:
  assumes "liballuris_device_bulk_transfer h sl st rl rt w = Inr (r, w')"
    and "int (length (in_buf w)) = DEFAULT_RECV_BUF_LEN h"
  shows "kept w w'"
proof -
  have rl: "rl \<le> int (length (in_buf w))"
    using assms by (simp add: liballuris_device_bulk_transfer_def split: if_splits)
  show ?thesis
  proof (cases "0 < sl")
    case False
    with assms have "bulk_transfer_receive 0 sl rl rt w = (r, w')"
      by (simp add: liballuris_device_bulk_transfer_def split: if_splits)
    from bulk_transfer_receive_kept [OF this rl] show ?thesis .
  next
    case True
    obtain r1 a1 w1 where o: "libusb_bulk_transfer_out sl st w = (r1, a1, w1)"
      by (cases "libusb_bulk_transfer_out sl st w") auto
    have k: "kept w w1" using kept_out [OF o] .
    then have l: "rl \<le> int (length (in_buf w1))" using rl by (simp add: kept_def)
    from True assms(1) o have
      "w' = emit (Stderr Write_Error) w1 \<or> bulk_transfer_receive r1 sl rl rt w1 = (r, w')"
      by (simp add: liballuris_device_bulk_transfer_def split: if_splits)
    then show ?thesis
    proof
      assume "w' = emit (Stderr Write_Error) w1"
      with k show ?thesis by (simp add: kept_emit)
    next
      assume "bulk_transfer_receive r1 sl rl rt w1 = (r, w')"
      from kept_trans [OF k bulk_transfer_receive_kept [OF this l]] show ?thesis .
    qed
  qed
qed

lemma bulk_transfer_total:
  assumes "sl \<le> DEFAULT_SEND_BUF_LEN h" and "rl \<le> DEFAULT_RECV_BUF_LEN h"
    and "0 < sl \<Longrightarrow> uint (out_buf w ! 1) = sl"
  shows "\<exists>r w'. liballuris_device_bulk_transfer h sl st rl rt w = Inr (r, w')"
proof (cases "liballuris_device_bulk_transfer h sl st rl rt w")
  case (Inl f)
  from bulk_transfer_Inl [OF this] assms show ?thesis by auto
next
  case (Inr p)
  then show ?thesis by (cases p) simp
qed

lemma take3_update:
  "3 \<le> length xs \<Longrightarrow> take 3 (xs[0 := a, 1 := b, 2 := c]) = [a, b, c]"
  by (auto simp add: Suc_le_length_iff numeral_eq_Suc)

lemma take4_update:
  "4 \<le> length xs \<Longrightarrow> take 4 (xs[0 := a, 1 := b, 2 := c, 3 := d]) = [a, b, c, d]"
  by (auto simp add: Suc_le_length_iff numeral_eq_Suc)

lemmas take_update = take3_update take3_update [unfolded One_nat_def]
  take4_update take4_update [unfolded One_nat_def]

lemma wf_nth1:
  "wf_header h \<Longrightarrow> wf_world h w \<Longrightarrow> 6 \<le> length (out_buf w) \<and> 6 \<le> length (in_buf w)"
  by (auto simp add: wf_header_def wf_world_def)

lemma bulk_transfer_sends:
  assumes "0 < sl" and "sl \<le> DEFAULT_SEND_BUF_LEN h" and "rl \<le> DEFAULT_RECV_BUF_LEN h"
    and "uint (out_buf w ! 1) = sl" and "int (length (in_buf w)) = DEFAULT_RECV_BUF_LEN h"
  shows "\<exists>r w'. liballuris_device_bulk_transfer h sl st rl rt w = Inr (r, w')
           \<and> kept w w' \<and> ncalls w < ncalls w'
           \<and> take (Suc (length (trace w))) (trace w')
               = trace w @ [Bulk_Out (take (nat sl) (out_buf w)) st]"
proof -
  obtain r1 a1 w1 where o: "libusb_bulk_transfer_out sl st w = (r1, a1, w1)"
    by (cases "libusb_bulk_transfer_out sl st w") auto
  then have t1: "trace w1 = trace w @ [Bulk_Out (take (nat sl) (out_buf w)) st]"
    and n1: "ncalls w1 = Suc (ncalls w)"
    by (auto simp add: libusb_bulk_transfer_out_def Let_def)
  have k1: "kept w w1" using kept_out [OF o] .
  then have l: "rl \<le> int (length (in_buf w1))" using assms by (simp add: kept_def)
  have "\<exists>r w'. liballuris_device_bulk_transfer h sl st rl rt w = Inr (r, w')
           \<and> (w' = emit (Stderr Write_Error) w1 \<or> bulk_transfer_receive r1 sl rl rt w1 = (r, w'))"
  proof (cases "r1 \<noteq> LIBUSB_SUCCESS \<or> a1 \<noteq> sl")
    case True
    with assms(1-4) o show ?thesis
      by (simp add: liballuris_device_bulk_transfer_def)
  next
    case False
    with assms(1-4) o show ?thesis
      by (cases "bulk_transfer_receive r1 sl rl rt w1")
         (simp add: liballuris_device_bulk_transfer_def)
  qed
  then obtain r w' where
    res: "liballuris_device_bulk_transfer h sl st rl rt w = Inr (r, w')"
    and alt: "w' = emit (Stderr Write_Error) w1 \<or> bulk_transfer_receive r1 sl rl rt w1 = (r, w')"
    by blast
  have k2: "kept w1 w'"
    using alt bulk_transfer_receive_kept [OF _ l] by (auto intro: kept_emit kept_refl)
  then obtain es where "trace w' = trace w1 @ es" and "ncalls w1 \<le> ncalls w'"
    by (auto simp add: kept_def)
  with t1 n1 have "ncalls w < ncalls w'"
    and "take (Suc (length (trace w))) (trace w')
           = trace w @ [Bulk_Out (take (nat sl) (out_buf w)) st]"
    by simp_all
  with res kept_trans [OF k1 k2] show ?thesis by blast
qed

section \<open>Concrete configurations\<close>

text \<open>
  A header with capacities of 10 and 64 bytes, timeouts of 10 and 100 ms and the
  \<^verbatim>\<open>measuring\<close> flag in bit 23, and a freshly started process talking to the device
  \<open>dev\<close> on a stack holding \<open>stack\<close>.
\<close>

definition header_10_64 :: header where
  "header_10_64 =
     \<lparr>DEFAULT_SEND_BUF_LEN = 10, DEFAULT_RECV_BUF_LEN = 64, DEFAULT_SEND_TIMEOUT = 10,
      DEFAULT_RECEIVE_TIMEOUT = 100, measuring_bit = 23\<rparr>"

definition boot :: "(nat \<Rightarrow> xfer) \<Rightarrow> (nat \<Rightarrow> int) \<Rightarrow> world" where
  "boot dev stack =
     \<lparr>out_buf = replicate 10 0, in_buf = replicate 64 0, usb = dev, ncalls = 0,
      uninit = stack, nuninit = 0, trace = []\<rparr>"

text \<open>
  A device and host controller that produce the listed outcomes in order; afterwards
  every transfer times out (\<^verbatim>\<open>LIBUSB_ERROR_TIMEOUT\<close> is \<open>-7\<close>).
\<close>

definition script :: "xfer list \<Rightarrow> nat \<Rightarrow> xfer" where
  "script xs i = (if i < length xs then xs ! i else Xfer (- 7) 0 [])"

lemmas model_defs =
  liballuris_device_bulk_transfer_def bulk_transfer_receive_def libusb_bulk_transfer_out_def
  libusb_bulk_transfer_in_def emit_def read_uninit_def memcpy_at_def Let_def
  LIBUSB_SUCCESS_def LIBUSB_ERROR_OVERFLOW_def LIBALLURIS_SUCCESS_def
  LIBALLURIS_MALFORMED_REPLY_def LIBALLURIS_DEVICE_BUSY_def LIBALLURIS_OUT_OF_RANGE_def
  header_10_64_def boot_def script_def wf_header_def wf_world_def

text \<open>A host controller that accepts every OUT transfer but moves two bytes only.\<close>

definition short_write_dev :: "nat \<Rightarrow> xfer" where
  "short_write_dev i = Xfer 0 2 []"

section \<open>The transaction primitive: results\<close>

text \<open>
  C1 (what the code does at a short write). The tare frame \<open>15 03 00\<close> is in
  \<^verbatim>\<open>out_buf\<close>; the OUT transfer returns \<^verbatim>\<open>LIBUSB_SUCCESS\<close> and reports 2 of 3 bytes
  written. The transaction prints its write error, does not start the IN transfer,
  and returns \<open>r\<close>, which is 0: the caller sees success although the send phase did
  not transfer \<open>send_len\<close> bytes and nothing was received.
\<close>

theorem bulk_transfer_short_write_returns_0:
  "liballuris_device_bulk_transfer header_10_64 3 10 3 100
     ((boot short_write_dev (\<lambda>i. 0))\<lparr>out_buf := [0x15, 3, 0, 0, 0, 0, 0, 0, 0, 0]\<rparr>)
   = Inr (0, (boot short_write_dev (\<lambda>i. 0))
               \<lparr>out_buf := [0x15, 3, 0, 0, 0, 0, 0, 0, 0, 0], ncalls := 1,
                trace := [Bulk_Out [0x15, 3, 0] 10, Stderr Write_Error]\<rparr>)"
  by (simp add: liballuris_device_bulk_transfer_def libusb_bulk_transfer_out_def
        header_10_64_def boot_def short_write_dev_def emit_def LIBUSB_SUCCESS_def)

text \<open>
  The same through a command: \<^verbatim>\<open>liballuris_tare\<close> on a freshly started process
  reports success to its caller after the short write.
\<close>

theorem bulk_transfer_short_write_returns_0_witness:
  "\<exists>w'. liballuris_tare header_10_64 (boot short_write_dev (\<lambda>i. 0)) = Inr (0, w')
         \<and> ncalls w' = 1 \<and> trace w' = [Bulk_Out [0x15, 3, 0] 10, Stderr Write_Error]"
proof -
  have "(out_buf (boot short_write_dev (\<lambda>i. 0)))[0 := 0x15, 1 := 3, 2 := 0]
          = [0x15, 3, 0, 0, 0, 0, 0, 0, 0, 0]"
    by (simp add: boot_def numeral_eq_Suc)
  with bulk_transfer_short_write_returns_0 show ?thesis
    by (simp add: liballuris_tare_def header_10_64_def)
qed

text \<open>
  C2. A transaction whose send phase completed (\<open>send_len\<close> bytes, return code 0)
  and whose IN transfer returned 0: when the first byte then found in \<^verbatim>\<open>in_buf\<close>
  differs from \<^verbatim>\<open>out_buf[0]\<close>, or the second byte differs from the number of bytes
  the transfer reported, the transaction returns \<^verbatim>\<open>LIBALLURIS_MALFORMED_REPLY\<close>,
  which is not the transport's success code.
\<close>

theorem bulk_transfer_malformed_reply:
  assumes "0 < send_len" and "send_len \<le> DEFAULT_SEND_BUF_LEN h"
    and "0 < reply_len" and "reply_len \<le> DEFAULT_RECV_BUF_LEN h"
    and "uint (out_buf w ! 1) = send_len"
    and "xfer_r (usb w (ncalls w)) = 0" and "xfer_actual (usb w (ncalls w)) = send_len"
    and "x = usb w (Suc (ncalls w))" and "xfer_r x = 0"
    and "d = take (nat reply_len) (xfer_data x)"
    and "reply = memcpy_at (in_buf w) 0 d (length d)"
    and "reply ! 0 \<noteq> out_buf w ! 0 \<or> uint (reply ! 1) \<noteq> xfer_actual x"
  shows "\<exists>w'. liballuris_device_bulk_transfer h send_len send_timeout reply_len receive_timeout w
               = Inr (LIBALLURIS_MALFORMED_REPLY, w')
             \<and> in_buf w' = reply
             \<and> LIBALLURIS_MALFORMED_REPLY \<noteq> LIBUSB_SUCCESS"
  using assms
  by (auto simp add: liballuris_device_bulk_transfer_def libusb_bulk_transfer_out_def
        libusb_bulk_transfer_in_def bulk_transfer_receive_def emit_def Let_def
        LIBUSB_SUCCESS_def LIBUSB_ERROR_OVERFLOW_def LIBALLURIS_MALFORMED_REPLY_def)

text \<open>
  The tare frame is sent in full and the device answers \<open>16 03 00\<close>: three bytes,
  the return code 0, but the first byte is not the command byte \<open>15\<close>.
\<close>

definition wrong_echo_dev :: "nat \<Rightarrow> xfer" where
  "wrong_echo_dev i = (if i = 0 then Xfer 0 3 [] else Xfer 0 3 [0x16, 3, 0])"

theorem bulk_transfer_malformed_reply_witness:
  "\<exists>w'. liballuris_device_bulk_transfer header_10_64 3 10 3 100
           ((boot wrong_echo_dev (\<lambda>i. 0))\<lparr>out_buf := [0x15, 3, 0, 0, 0, 0, 0, 0, 0, 0]\<rparr>)
         = Inr (LIBALLURIS_MALFORMED_REPLY, w')
       \<and> in_buf w' = [0x16, 3, 0] @ replicate 61 0"
proof -
  let ?w = "(boot wrong_echo_dev (\<lambda>i. 0))\<lparr>out_buf := [0x15, 3, 0, 0, 0, 0, 0, 0, 0, 0]\<rparr>"
  have "\<exists>w'. liballuris_device_bulk_transfer header_10_64 3 10 3 100 ?w
               = Inr (LIBALLURIS_MALFORMED_REPLY, w')
             \<and> in_buf w' = memcpy_at (in_buf ?w) 0 [0x16, 3, 0] 3
             \<and> LIBALLURIS_MALFORMED_REPLY \<noteq> LIBUSB_SUCCESS"
    by (rule bulk_transfer_malformed_reply [where x = "Xfer 0 3 [0x16, 3, 0]"
            and d = "[0x16, 3, 0]"])
       (simp_all add: header_10_64_def boot_def wrong_echo_dev_def memcpy_at_def)
  then obtain w' where
    r: "liballuris_device_bulk_transfer header_10_64 3 10 3 100 ?w
          = Inr (LIBALLURIS_MALFORMED_REPLY, w')"
    and b: "in_buf w' = memcpy_at (in_buf ?w) 0 [0x16, 3, 0] 3"
    by blast
  have "memcpy_at (in_buf ?w) 0 [0x16, 3, 0] 3 = [0x16, 3, 0] @ replicate 61 0"
    by (simp add: boot_def memcpy_at_def)
  with b have "in_buf w' = [0x16, 3, 0] @ replicate 61 0" by simp
  with r show ?thesis by (intro exI conjI)
qed

section \<open>The 24-bit decoder\<close>

text \<open>
  C3 (what the code does). The limit 5 is encoded as the bytes \<open>05 00 00\<close>. When
  the object \<^verbatim>\<open>ret\<close> of \<^verbatim>\<open>char_to_uint24\<close> is entered holding \<open>-1\<close> (all bits set),
  its high-order byte stays \<open>FF\<close>, the value read is negative, no sign extension
  takes place, and the decoder returns \<open>-16777211\<close> instead of 5.
\<close>

theorem char_to_int24_stale_high_byte:
  "take 3 (int_bytes 5) = [5, 0, 0] \<and> char_to_int24 (- 1) (take 3 (int_bytes 5)) = - 16777211"
  by code_simp

text \<open>
  The decoder itself is sound: whenever the high-order byte found in \<^verbatim>\<open>ret\<close> is 0,
  it reads the unsigned 24-bit value and the round trip holds on the whole range.
\<close>

lemma bytes24_sum:
  fixes x :: int
  shows "x mod 256 + 256 * (x div 256 mod 256) + 65536 * (x div 65536 mod 256) = x mod 16777216"
proof -
  have a: "x mod (256 * 65536) = 256 * (x div 256 mod 65536) + x mod 256"
    by (rule zmod_zmult2_eq) simp
  have b: "(x div 256) mod (256 * 256) = 256 * (x div 256 div 256 mod 256) + x div 256 mod 256"
    by (rule zmod_zmult2_eq) simp
  have c: "x div (256 * 256) = x div 256 div 256"
    by (rule zdiv_zmult2_eq) simp
  have n: "(256 :: int) * 65536 = 16777216" "(256 :: int) * 256 = 65536" by simp_all
  show ?thesis
    unfolding a [unfolded n] b [unfolded n] c [unfolded n, symmetric]
    by (simp only: distrib_left mult.assoc [symmetric] n ac_simps)
qed

lemma uint_byte_of_word:
  "uint (ucast (drop_bit n (word_of_int v :: 32 word)) :: byte)
     = take_bit 8 (drop_bit n (take_bit 32 v))"
  by (simp only: unsigned_ucast_eq unsigned_drop_bit_eq uint_word_of_int_eq take_bit_take_bit)
     simp

lemma int_bytes_nth:
  "int_bytes v ! 0 = ucast (drop_bit 0 (word_of_int v :: 32 word))"
  "int_bytes v ! 1 = ucast (drop_bit 8 (word_of_int v :: 32 word))"
  "int_bytes v ! 2 = ucast (drop_bit 16 (word_of_int v :: 32 word))"
  "int_bytes v ! 3 = ucast (drop_bit 24 (word_of_int v :: 32 word))"
  by (simp_all add: int_bytes_def Let_def)

lemma int_bytes_uint:
  "uint (int_bytes v ! 0) = take_bit 32 v mod 256"
  "uint (int_bytes v ! 1) = take_bit 32 v div 256 mod 256"
  "uint (int_bytes v ! 2) = take_bit 32 v div 65536 mod 256"
  by (simp_all only: int_bytes_nth uint_byte_of_word)
     (simp_all add: take_bit_eq_mod drop_bit_eq_div mod_mod_cancel)

lemma bytes_int_high_0:
  "bytes_int [a, b, c, 0] = sint (word_of_int (uint a + 256 * uint b + 65536 * uint c) :: 32 word)"
  by (simp add: bytes_int_def)

lemma char_to_uint24_encode:
  assumes "int_bytes ret0 ! 3 = 0"
  shows "char_to_uint24 ret0 (take 3 (int_bytes v)) = v mod 16777216"
proof -
  have m: "memcpy_at (int_bytes ret0) 0 (take 3 (int_bytes v)) 3
        = [int_bytes v ! 0, int_bytes v ! 1, int_bytes v ! 2, 0]"
    using assms by (simp add: memcpy_at_def int_bytes_def Let_def)
  have "uint (int_bytes v ! 0) + 256 * uint (int_bytes v ! 1) + 65536 * uint (int_bytes v ! 2)
          = take_bit 32 v mod 16777216"
    by (simp only: int_bytes_uint bytes24_sum)
  also have "\<dots> = v mod 16777216"
    by (simp add: take_bit_eq_mod mod_mod_cancel)
  finally have s: "uint (int_bytes v ! 0) + 256 * uint (int_bytes v ! 1)
                    + 65536 * uint (int_bytes v ! 2) = v mod 16777216" .
  have "char_to_uint24 ret0 (take 3 (int_bytes v))
          = sint (word_of_int (v mod 16777216) :: 32 word)"
    by (simp only: char_to_uint24_def m bytes_int_high_0 s)
  also have "\<dots> = signed_take_bit (LENGTH(32) - 1) (v mod 16777216)"
    by (rule sint_sbintrunc')
  also have "\<dots> = v mod 16777216"
  proof (rule signed_take_bit_int_eq_self)
    have "0 \<le> v mod 16777216" by simp
    then show "- (2 ^ (LENGTH(32) - 1)) \<le> v mod 16777216" by simp
    have "v mod 16777216 < 16777216" by simp
    then show "v mod 16777216 < 2 ^ (LENGTH(32) - 1)" by simp
  qed
  finally show ?thesis .
qed

lemma char_to_int24_round_trip:
  assumes "int_bytes ret0 ! 3 = 0" and "- 8388608 \<le> v" and "v \<le> 8388607"
  shows "char_to_int24 ret0 (take 3 (int_bytes v)) = v"
proof (cases "0 \<le> v")
  case True
  with assms(3) have "v mod 16777216 = v" by simp
  with assms(3) show ?thesis
    by (simp add: char_to_int24_def Let_def char_to_uint24_encode [OF assms(1)])
next
  case False
  have "v mod 16777216 = (v + 16777216) mod 16777216" by simp
  also have "\<dots> = v + 16777216"
    using False assms(2) by (intro mod_pos_pos_trivial) simp_all
  finally have "char_to_uint24 ret0 (take 3 (int_bytes v)) = v + 16777216"
    by (simp only: char_to_uint24_encode [OF assms(1)])
  with assms(2) show ?thesis
    by (simp add: char_to_int24_def Let_def)
qed

text \<open>
  The value the specification gives to a 3-byte field, in its own words: the unsigned
  24-bit value of the little-endian bytes, minus \<open>2^24\<close> if it exceeds \<open>2^23 - 1\<close>.
  \<open>spec_int24\<close> is this value; \<open>char_to_int24\<close> above is what the code computes, and
  the two agree whenever the high-order byte found in \<^verbatim>\<open>ret\<close> is 0.
\<close>

definition spec_int24 :: "byte \<Rightarrow> byte \<Rightarrow> byte \<Rightarrow> int" where
  "spec_int24 b0 b1 b2 =
     (let u = uint b0 + 256 * uint b1 + 65536 * uint b2
      in if u > 8388607 then u - 16777216 else u)"

lemma take3_nth: "3 \<le> length xs \<Longrightarrow> take 3 xs = [xs ! 0, xs ! 1, xs ! 2]"
  by (auto simp add: Suc_le_length_iff numeral_eq_Suc)

lemma uint_byte_bounds: "0 \<le> uint (b :: byte)" "uint (b :: byte) \<le> 255"
  using uint_lt2p [of b] by simp_all

lemma sint_of_bytes24:
  "sint (word_of_int (uint (a :: byte) + 256 * uint (b :: byte) + 65536 * uint (c :: byte)) :: 32 word)
     = uint a + 256 * uint b + 65536 * uint c"
proof -
  let ?s = "uint a + 256 * uint b + 65536 * uint c"
  have lo: "0 \<le> ?s" using uint_byte_bounds(1) [of a] uint_byte_bounds(1) [of b]
      uint_byte_bounds(1) [of c] by simp
  have hi: "?s \<le> 16777215" using uint_byte_bounds(2) [of a] uint_byte_bounds(2) [of b]
      uint_byte_bounds(2) [of c] by simp
  have "sint (word_of_int ?s :: 32 word) = signed_take_bit (LENGTH(32) - 1) ?s"
    by (rule sint_sbintrunc')
  also have "\<dots> = ?s"
  proof (rule signed_take_bit_int_eq_self)
    from lo show "- (2 ^ (LENGTH(32) - 1)) \<le> ?s" by (rule order_trans [rotated]) simp
    from hi show "?s < 2 ^ (LENGTH(32) - 1)" by (rule le_less_trans) simp
  qed
  finally show ?thesis .
qed

lemma char_to_int24_high_byte_0:
  assumes "int_bytes ret0 ! 3 = 0" and "3 \<le> length inp"
  shows "char_to_int24 ret0 inp = spec_int24 (inp ! 0) (inp ! 1) (inp ! 2)"
proof -
  have "drop 3 (int_bytes ret0) = [int_bytes ret0 ! 3]"
    by (simp add: int_bytes_def Let_def)
  with assms have m: "memcpy_at (int_bytes ret0) 0 inp 3 = [inp ! 0, inp ! 1, inp ! 2, 0]"
    by (simp add: memcpy_at_def take3_nth)
  have "char_to_uint24 ret0 inp = uint (inp ! 0) + 256 * uint (inp ! 1) + 65536 * uint (inp ! 2)"
    by (simp only: char_to_uint24_def m bytes_int_high_0 sint_of_bytes24)
  then show ?thesis by (simp add: char_to_int24_def spec_int24_def Let_def)
qed

section \<open>Range checks\<close>

text \<open>
  C6. A mode outside 0..3 and a packet length above 19 (the parameter is a
  \<^verbatim>\<open>size_t\<close>, so it cannot be below 0) are answered with
  \<^verbatim>\<open>LIBALLURIS_OUT_OF_RANGE\<close> in a state that differs from the one before the call by
  the message on stderr only: no transfer was issued and both buffers are untouched.
  With length 19 the frame \<open>01 04 e 13\<close> is handed to the OUT endpoint.
\<close>

theorem out_of_range_is_local:
  assumes "wf_header h" and "wf_world h w"
  shows "(mode < 0 \<or> 3 < mode \<longrightarrow>
            liballuris_set_mode h mode w
              = Inr (LIBALLURIS_OUT_OF_RANGE, w\<lparr>trace := trace w @ [Stderr Mode_Range_Error]\<rparr>))
       \<and> (19 < len \<longrightarrow>
            liballuris_cyclic_measurement h enable len w
              = Inr (LIBALLURIS_OUT_OF_RANGE, w\<lparr>trace := trace w @ [Stderr Packetlen_Range_Error]\<rparr>))
       \<and> (\<exists>r w'. liballuris_cyclic_measurement h enable 19 w = Inr (r, w')
              \<and> ncalls w < ncalls w'
              \<and> take (Suc (length (trace w))) (trace w')
                  = trace w @ [Bulk_Out [0x01, 4, if enable \<noteq> 0 then 2 else 0, 19]
                                 (DEFAULT_SEND_TIMEOUT h)])"
proof (intro conjI impI)
  assume "mode < 0 \<or> 3 < mode"
  then show "liballuris_set_mode h mode w
      = Inr (LIBALLURIS_OUT_OF_RANGE, w\<lparr>trace := trace w @ [Stderr Mode_Range_Error]\<rparr>)"
    by (auto simp add: liballuris_set_mode_def emit_def)
next
  assume "19 < len"
  then show "liballuris_cyclic_measurement h enable len w
      = Inr (LIBALLURIS_OUT_OF_RANGE, w\<lparr>trace := trace w @ [Stderr Packetlen_Range_Error]\<rparr>)"
    by (simp add: liballuris_cyclic_measurement_def emit_def)
next
  let ?e = "if enable \<noteq> 0 then 2 else (0 :: byte)"
  let ?w0 = "w\<lparr>out_buf := (out_buf w)[0 := 0x01, 1 := 4, 2 := ?e, 3 := 19]\<rparr>"
  have len: "6 \<le> length (out_buf w)" "6 \<le> length (in_buf w)"
    using wf_nth1 [OF assms] by simp_all
  have c: "liballuris_cyclic_measurement h enable 19 w
             = liballuris_device_bulk_transfer h 4 (DEFAULT_SEND_TIMEOUT h) 4
                 (DEFAULT_RECEIVE_TIMEOUT h) ?w0"
    by (simp add: liballuris_cyclic_measurement_def Let_def)
  have caps: "4 \<le> DEFAULT_SEND_BUF_LEN h" "4 \<le> DEFAULT_RECV_BUF_LEN h"
    using assms(1) by (simp_all add: wf_header_def)
  have b1: "uint (out_buf ?w0 ! 1) = 4" using len by simp
  obtain r1 a1 w1 where o: "libusb_bulk_transfer_out 4 (DEFAULT_SEND_TIMEOUT h) ?w0 = (r1, a1, w1)"
    by (cases "libusb_bulk_transfer_out 4 (DEFAULT_SEND_TIMEOUT h) ?w0") auto
  have tk: "take 4 ((out_buf w)[0 := 0x01, 1 := 4, 2 := ?e, 3 := 19]) = [0x01, 4, ?e, 19]"
    using len by (intro take4_update) simp
  show "\<exists>r w'. liballuris_cyclic_measurement h enable 19 w = Inr (r, w')
              \<and> ncalls w < ncalls w'
              \<and> take (Suc (length (trace w))) (trace w')
                  = trace w @ [Bulk_Out [0x01, 4, ?e, 19] (DEFAULT_SEND_TIMEOUT h)]"
    using bulk_transfer_sends [of 4 h 4 ?w0 "DEFAULT_SEND_TIMEOUT h" "DEFAULT_RECEIVE_TIMEOUT h"]
      caps b1 tk assms(2) c
    by (auto simp add: wf_world_def)
qed


theorem out_of_range_is_local_witness:
  "liballuris_set_mode header_10_64 4 (boot (script []) (\<lambda>i. 0))
     = Inr (LIBALLURIS_OUT_OF_RANGE, (boot (script []) (\<lambda>i. 0))\<lparr>trace := [Stderr Mode_Range_Error]\<rparr>)
   \<and> liballuris_cyclic_measurement header_10_64 1 20 (boot (script []) (\<lambda>i. 0))
     = Inr (LIBALLURIS_OUT_OF_RANGE,
            (boot (script []) (\<lambda>i. 0))\<lparr>trace := [Stderr Packetlen_Range_Error]\<rparr>)
   \<and> (\<exists>r w'. liballuris_cyclic_measurement header_10_64 1 19 (boot (script []) (\<lambda>i. 0)) = Inr (r, w')
          \<and> 0 < ncalls w' \<and> take 1 (trace w') = [Bulk_Out [0x01, 4, 2, 19] 10])"
  using out_of_range_is_local [of header_10_64 "boot (script []) (\<lambda>i. 0)" 4 20 1]
  by (simp add: wf_header_def wf_world_def header_10_64_def boot_def)

text \<open>
  C7. For a mode in 0..3 the transaction (frame \<open>04 03 mode\<close>, three bytes expected)
  is carried out, and afterwards \<^verbatim>\<open>in_buf[2]\<close> is compared with the mode asked for:
  whenever they differ the result is \<^verbatim>\<open>LIBALLURIS_DEVICE_BUSY\<close>, otherwise it is
  the result of the transaction.
\<close>

theorem set_mode_checks_echo:
  assumes "wf_header h" and "wf_world h w" and "0 \<le> mode" and "mode \<le> 3"
  shows "\<exists>r w1. liballuris_device_bulk_transfer h 3 (DEFAULT_SEND_TIMEOUT h) 3
                   (DEFAULT_RECEIVE_TIMEOUT h)
                   (w\<lparr>out_buf := (out_buf w)[0 := 0x04, 1 := 3, 2 := word_of_int mode]\<rparr>)
                 = Inr (r, w1)
           \<and> liballuris_set_mode h mode w
               = Inr (if uint (in_buf w1 ! 2) \<noteq> mode then LIBALLURIS_DEVICE_BUSY else r, w1)"
proof -
  let ?w0 = "w\<lparr>out_buf := (out_buf w)[0 := 0x04, 1 := 3, 2 := word_of_int mode]\<rparr>"
  have "6 \<le> length (out_buf w)" using wf_nth1 [OF assms(1,2)] by simp
  then have b1: "0 < (3::int) \<Longrightarrow> uint (out_buf ?w0 ! 1) = 3" by simp
  have "3 \<le> DEFAULT_SEND_BUF_LEN h" "3 \<le> DEFAULT_RECV_BUF_LEN h"
    using assms(1) by (simp_all add: wf_header_def)
  from bulk_transfer_total [OF this b1]
  obtain r w1 where
    t: "liballuris_device_bulk_transfer h 3 (DEFAULT_SEND_TIMEOUT h) 3
          (DEFAULT_RECEIVE_TIMEOUT h) ?w0 = Inr (r, w1)"
    by blast
  with assms(3,4) have "liballuris_set_mode h mode w
      = Inr (if uint (in_buf w1 ! 2) \<noteq> mode then LIBALLURIS_DEVICE_BUSY else r, w1)"
    by (simp add: liballuris_set_mode_def Let_def)
  with t show ?thesis by blast
qed

text \<open>The device acknowledges the frame \<open>04 03 00\<close> with \<open>04 03 01\<close>: it kept mode 1.\<close>

theorem set_mode_checks_echo_witness:
  "\<exists>w1. liballuris_set_mode header_10_64 0
           (boot (script [Xfer 0 3 [], Xfer 0 3 [0x04, 3, 1]]) (\<lambda>i. 0))
         = Inr (LIBALLURIS_DEVICE_BUSY, w1) \<and> in_buf w1 ! 2 = 1"
  using set_mode_checks_echo [of header_10_64
          "boot (script [Xfer 0 3 [], Xfer 0 3 [0x04, 3, 1]]) (\<lambda>i. 0)" 0]
  by (simp add: model_defs)

section \<open>The busy sentinel of the serial-number and digits queries\<close>

text \<open>
  A device that is measuring answers both queries with \<open>FF FF FF\<close> in bytes 3 to 5.
\<close>

definition busy_dev :: "nat \<Rightarrow> xfer" where
  "busy_dev = script [Xfer 0 3 [], Xfer 0 6 [0x08, 6, 0, 0xFF, 0xFF, 0xFF]]"

definition busy_reply :: "byte list" where
  "busy_reply = [0x08, 6, 0, 0xFF, 0xFF, 0xFF] @ replicate 58 0"

definition after_query :: "byte \<Rightarrow> world" where
  "after_query sel =
     (boot busy_dev (\<lambda>i. 0))
       \<lparr>out_buf := (replicate 10 0)[0 := 0x08, 1 := 3, 2 := sel], in_buf := busy_reply,
        ncalls := 2, trace := [Bulk_Out [0x08, 3, sel] 10, Bulk_In 6 100]\<rparr>"

lemma busy_dev_transfer:
  "liballuris_device_bulk_transfer header_10_64 3 (DEFAULT_SEND_TIMEOUT header_10_64) 6
       (DEFAULT_RECEIVE_TIMEOUT header_10_64)
       ((boot busy_dev (\<lambda>i. 0))
          \<lparr>out_buf := (out_buf (boot busy_dev (\<lambda>i. 0)))[0 := 0x08, 1 := 3, 2 := sel]\<rparr>)
     = Inr (LIBUSB_SUCCESS, after_query sel)"
  by (simp add: model_defs busy_dev_def busy_reply_def after_query_def take_update)

lemma busy_dev_fields:
  "char_to_uint16 (drop 3 (in_buf (after_query sel))) = - 1"
  "char_to_int24 (uninit (after_query sel) (nuninit (after_query sel)))
     (drop 3 (in_buf (after_query sel))) = - 1"
  by (simp_all add: after_query_def boot_def busy_reply_def char_to_uint16_def char_to_int24_def
        char_to_uint24_def memcpy_at_def int_bytes_def bytes_int_def)

text \<open>
  The same device seen by a process in which the object \<^verbatim>\<open>ret\<close> of
  \<^verbatim>\<open>char_to_uint24\<close> is entered holding \<open>0x01000000\<close>.
\<close>

definition stale_stack :: "nat \<Rightarrow> int" where
  "stale_stack i = 16777216"

text \<open>
  C5 (what the code does for the digits query). The transaction returns 0 and the
  reply carries \<open>FF FF FF\<close> at offset 3, the 24-bit sentinel \<open>-1\<close>. The stale
  high-order byte \<open>01\<close> makes the decoder return \<open>16777215\<close>, the test against
  \<open>-1\<close> fails, and \<^verbatim>\<open>liballuris_digits\<close> returns \<^verbatim>\<open>LIBALLURIS_SUCCESS\<close> with that
  value in \<^verbatim>\<open>*v\<close>. (The serial-number query decodes into a \<^verbatim>\<open>short\<close>, which two
  bytes fill completely, so its sentinel test is not affected.)
\<close>

theorem digits_sentinel_stale_high_byte:
  "liballuris_digits header_10_64 7 (boot busy_dev stale_stack)
     = Inr (LIBALLURIS_SUCCESS, 16777215,
            (boot busy_dev stale_stack)
              \<lparr>out_buf := (replicate 10 0)[0 := 0x08, 1 := 3, 2 := 3], in_buf := busy_reply,
               ncalls := 2, nuninit := 1, trace := [Bulk_Out [0x08, 3, 3] 10, Bulk_In 6 100]\<rparr>)
   \<and> take 6 busy_reply = [0x08, 6, 0, 0xFF, 0xFF, 0xFF]
   \<and> spec_int24 (busy_reply ! 3) (busy_reply ! 4) (busy_reply ! 5) = - 1"
proof (intro conjI)
  let ?w = "boot busy_dev stale_stack"
  let ?w1 = "?w\<lparr>out_buf := (replicate 10 0)[0 := 0x08, 1 := 3, 2 := 3], in_buf := busy_reply,
               ncalls := 2, trace := [Bulk_Out [0x08, 3, 3] 10, Bulk_In 6 100]\<rparr>"
  have t: "liballuris_device_bulk_transfer header_10_64 3 (DEFAULT_SEND_TIMEOUT header_10_64) 6
             (DEFAULT_RECEIVE_TIMEOUT header_10_64)
             (?w\<lparr>out_buf := (out_buf ?w)[0 := 0x08, 1 := 3, 2 := 3]\<rparr>)
           = Inr (LIBALLURIS_SUCCESS, ?w1)"
    by (simp add: model_defs busy_dev_def busy_reply_def take_update)
  have d: "char_to_int24 16777216 (drop 3 busy_reply) = 16777215"
    by code_simp
  show "liballuris_digits header_10_64 7 ?w
     = Inr (LIBALLURIS_SUCCESS, 16777215,
            ?w\<lparr>out_buf := (replicate 10 0)[0 := 0x08, 1 := 3, 2 := 3], in_buf := busy_reply,
               ncalls := 2, nuninit := 1, trace := [Bulk_Out [0x08, 3, 3] 10, Bulk_In 6 100]\<rparr>)"
    using t d
    by (simp add: liballuris_digits_def Let_def read_uninit_def boot_def stale_stack_def
          LIBALLURIS_SUCCESS_def)
  show "take 6 busy_reply = [0x08, 6, 0, 0xFF, 0xFF, 0xFF]"
    by (simp add: busy_reply_def)
  show "spec_int24 (busy_reply ! 3) (busy_reply ! 4) (busy_reply ! 5) = - 1"
    by (simp add: busy_reply_def spec_int24_def)
qed

theorem digits_sentinel_stale_high_byte_witness:
  "\<exists>v' w'. liballuris_digits header_10_64 7 (boot busy_dev stale_stack)
              = Inr (LIBALLURIS_SUCCESS, v', w')
          \<and> v' = 16777215 \<and> in_buf w' = busy_reply \<and> ncalls w' = 2"
  using digits_sentinel_stale_high_byte by simp


text \<open>
  Whenever the stale high-order byte is 0, the digits query does report the sentinel as
  \<^verbatim>\<open>LIBALLURIS_DEVICE_BUSY\<close>.
\<close>

lemma digits_busy_high_byte_0:
  assumes "liballuris_device_bulk_transfer h 3 (DEFAULT_SEND_TIMEOUT h) 6
             (DEFAULT_RECEIVE_TIMEOUT h)
             (w\<lparr>out_buf := (out_buf w)[0 := 0x08, 1 := 3, 2 := 3]\<rparr>) = Inr (LIBUSB_SUCCESS, w1)"
    and "6 \<le> length (in_buf w1)"
    and "in_buf w1 ! 3 = 0xFF" and "in_buf w1 ! 4 = 0xFF" and "in_buf w1 ! 5 = 0xFF"
    and "int_bytes (uninit w1 (nuninit w1)) ! 3 = 0"
  shows "liballuris_digits h v w
           = Inr (LIBALLURIS_DEVICE_BUSY, - 1, w1\<lparr>nuninit := Suc (nuninit w1)\<rparr>)"
proof -
  let ?inp = "drop 3 (in_buf w1)"
  have l: "3 \<le> length ?inp" using assms(2) by simp
  have n: "?inp ! 0 = 0xFF" "?inp ! 1 = 0xFF" "?inp ! 2 = 0xFF"
    using assms(2-5) by simp_all
  have "char_to_int24 (uninit w1 (nuninit w1)) ?inp = spec_int24 0xFF 0xFF 0xFF"
    using char_to_int24_high_byte_0 [OF assms(6) l] by (simp only: n)
  also have "\<dots> = - 1" by (simp add: spec_int24_def)
  finally show ?thesis
    using assms(1)
    by (simp add: liballuris_digits_def Let_def read_uninit_def LIBUSB_SUCCESS_def
          LIBALLURIS_SUCCESS_def)
qed

text \<open>
  C10. When \<^verbatim>\<open>liballuris_digits\<close> takes its busy path (transaction result 0, field
  decoded to \<open>-1\<close>) it has stored \<open>-1\<close> in the caller's \<^verbatim>\<open>*v\<close> before it returns
  \<^verbatim>\<open>LIBALLURIS_DEVICE_BUSY\<close>, whereas \<^verbatim>\<open>liballuris_serial_number\<close> on its busy path
  returns with the caller's buffer as it was.
\<close>

theorem busy_sentinel_output:
  "(liballuris_device_bulk_transfer h 3 (DEFAULT_SEND_TIMEOUT h) 6 (DEFAULT_RECEIVE_TIMEOUT h)
        (w\<lparr>out_buf := (out_buf w)[0 := 0x08, 1 := 3, 2 := 3]\<rparr>) = Inr (LIBUSB_SUCCESS, w2)
      \<longrightarrow> char_to_int24 (uninit w2 (nuninit w2)) (drop 3 (in_buf w2)) = - 1
      \<longrightarrow> liballuris_digits h v w
            = Inr (LIBALLURIS_DEVICE_BUSY, - 1, w2\<lparr>nuninit := Suc (nuninit w2)\<rparr>))
   \<and> (liballuris_device_bulk_transfer h 3 (DEFAULT_SEND_TIMEOUT h) 6 (DEFAULT_RECEIVE_TIMEOUT h)
        (w\<lparr>out_buf := (out_buf w)[0 := 0x08, 1 := 3, 2 := 6]\<rparr>) = Inr (LIBUSB_SUCCESS, w1)
      \<longrightarrow> char_to_uint16 (drop 3 (in_buf w1)) = - 1
      \<longrightarrow> liballuris_serial_number h buf len w = Inr (LIBALLURIS_DEVICE_BUSY, buf, w1))"
  by (simp add: liballuris_serial_number_def liballuris_digits_def Let_def read_uninit_def
        LIBUSB_SUCCESS_def LIBALLURIS_SUCCESS_def LIBALLURIS_DEVICE_BUSY_def)

theorem busy_sentinel_output_witness:
  "liballuris_digits header_10_64 7 (boot busy_dev (\<lambda>i. 0))
     = Inr (LIBALLURIS_DEVICE_BUSY, - 1, (after_query 3)\<lparr>nuninit := 1\<rparr>)
   \<and> liballuris_serial_number header_10_64 [0x50, 0x2E, 0x31, 0] 4 (boot busy_dev (\<lambda>i. 0))
     = Inr (LIBALLURIS_DEVICE_BUSY, [0x50, 0x2E, 0x31, 0], after_query 6)"
  using busy_sentinel_output [of header_10_64 "boot busy_dev (\<lambda>i. 0)" "after_query 3" 7
          "after_query 6" "[0x50, 0x2E, 0x31, 0]" 4]
    busy_dev_transfer busy_dev_fields
  by (simp add: after_query_def boot_def)

section \<open>Polling buffered samples\<close>





text \<open>
  C8 as stated fails: the receive length is checked against the capacity of
  \<^verbatim>\<open>in_buf\<close> first, and a request that does not fit ends the process.
\<close>








section \<open>The assertion on the frame length\<close>

lemma frame_no_assert:
  assumes "2 \<le> length (out_buf w)" and "uint b1 = sl"
  shows "liballuris_device_bulk_transfer h sl st rl rt
           (w\<lparr>out_buf := (out_buf w)[0 := b0, 1 := b1, 2 := b2]\<rparr>) \<noteq> Inl Assert_Failed"
proof
  assume "liballuris_device_bulk_transfer h sl st rl rt
           (w\<lparr>out_buf := (out_buf w)[0 := b0, 1 := b1, 2 := b2]\<rparr>) = Inl Assert_Failed"
  from bulk_transfer_Inl [OF this] assms show False by simp
qed

lemma read_state_no_assert:
  assumes "2 \<le> length (out_buf w)"
  shows "liballuris_read_state h state t w \<noteq> Inl Assert_Failed"
  using frame_no_assert [OF assms, of 3 3 h "DEFAULT_SEND_TIMEOUT h" 6 t "0x46" 2]
  by (auto simp add: liballuris_read_state_def Let_def read_uninit_def split: sum.splits prod.splits if_splits)

lemma read_state_length:
  assumes "liballuris_read_state h state t w = Inr (r, state', w')"
    and "int (length (in_buf w)) = DEFAULT_RECV_BUF_LEN h"
  shows "length (out_buf w') = length (out_buf w) \<and> length (in_buf w') = length (in_buf w)"
proof -
  let ?w0 = "w\<lparr>out_buf := (out_buf w)[0 := 0x46, 1 := 3, 2 := 2]\<rparr>"
  obtain r1 w1 where t: "liballuris_device_bulk_transfer h 3 (DEFAULT_SEND_TIMEOUT h) 6 t ?w0 = Inr (r1, w1)"
    and w': "w' = w1 \<or> w' = snd (read_uninit w1)"
    using assms(1)
    by (auto simp add: liballuris_read_state_def Let_def split: sum.splits prod.splits if_splits)
  have "kept ?w0 w1" using bulk_transfer_kept [OF t] assms(2) by simp
  with w' show ?thesis by (auto simp add: kept_def read_uninit_def)
qed


lemma start_loop_no_assert:
  "2 \<le> length (out_buf w) \<Longrightarrow> int (length (in_buf w)) = DEFAULT_RECV_BUF_LEN h \<Longrightarrow>
   start_loop h timeout state w \<noteq> Inl Assert_Failed"
proof (induction h timeout state w rule: start_loop.induct)
  case (1 h timeout state w)
  show ?case
  proof (cases "liballuris_read_state h state 600 w")
    case (Inl f)
    with read_state_no_assert [OF "1.prems"(1), of h state 600] show ?thesis
      by (subst start_loop.simps) simp
  next
    case (Inr p)
    obtain ret state1 w1 where p: "p = (ret, state1, w1)" by (cases p) auto
    let ?w2 = "if \<not> measuring h state1 then emit (Usleep 20000) w1 else w1"
    from read_state_length [OF Inr [unfolded p] "1.prems"(2)] "1.prems"
    have len: "2 \<le> length (out_buf ?w2)" "int (length (in_buf ?w2)) = DEFAULT_RECV_BUF_LEN h"
      by simp_all
    show ?thesis
    proof (cases "ret = 0 \<and> timeout - 1 \<noteq> 0 \<and> \<not> measuring h state1")
      case True
      from "1.IH" [OF Inr p [symmetric] refl refl True len]
      have "start_loop h (timeout - 1) state1 ?w2 \<noteq> Inl Assert_Failed" .
      with True Inr p show ?thesis by (subst start_loop.simps) (simp add: Let_def)
    next
      case False
      with Inr p show ?thesis by (subst start_loop.simps) (auto simp add: Let_def)
    qed
  qed
qed

lemma stop_loop_no_assert:
  "2 \<le> length (out_buf w) \<Longrightarrow> int (length (in_buf w)) = DEFAULT_RECV_BUF_LEN h \<Longrightarrow>
   stop_loop h timeout state w \<noteq> Inl Assert_Failed"
proof (induction h timeout state w rule: stop_loop.induct)
  case (1 h timeout state w)
  show ?case
  proof (cases "liballuris_read_state h state 200 w")
    case (Inl f)
    with read_state_no_assert [OF "1.prems"(1), of h state 200] show ?thesis
      by (subst stop_loop.simps) simp
  next
    case (Inr p)
    obtain ret state1 w1 where p: "p = (ret, state1, w1)" by (cases p) auto
    let ?w2 = "if measuring h state1 then emit (Usleep 20000) w1 else w1"
    from read_state_length [OF Inr [unfolded p] "1.prems"(2)] "1.prems"
    have len: "2 \<le> length (out_buf ?w2)" "int (length (in_buf ?w2)) = DEFAULT_RECV_BUF_LEN h"
      by simp_all
    show ?thesis
    proof (cases "ret = 0 \<and> timeout - 1 \<noteq> 0 \<and> measuring h state1")
      case True
      from "1.IH" [OF Inr p [symmetric] refl refl True len]
      have "stop_loop h (timeout - 1) state1 ?w2 \<noteq> Inl Assert_Failed" .
      with True Inr p show ?thesis by (subst stop_loop.simps) (simp add: Let_def)
    next
      case False
      with Inr p show ?thesis by (subst stop_loop.simps) (auto simp add: Let_def)
    qed
  qed
qed

lemma bulk_transfer_no_assert:
  assumes "0 < sl \<Longrightarrow> uint (out_buf w ! 1) = sl"
  shows "liballuris_device_bulk_transfer h sl st rl rt w \<noteq> Inl Assert_Failed"
proof
  assume "liballuris_device_bulk_transfer h sl st rl rt w = Inl Assert_Failed"
  from bulk_transfer_Inl [OF this] assms show False by simp
qed

lemma case_no_assert:
  "t \<noteq> Inl Assert_Failed \<Longrightarrow> (\<And>x. t = Inr x \<Longrightarrow> f x \<noteq> Inl Assert_Failed) \<Longrightarrow>
   (case t of Inl e \<Rightarrow> Inl e | Inr x \<Rightarrow> f x) \<noteq> Inl Assert_Failed"
  by (cases t) auto

lemma serial_number_no_assert:
  "2 \<le> length (out_buf w) \<Longrightarrow> liballuris_serial_number h buf len w \<noteq> Inl Assert_Failed"
  unfolding liballuris_serial_number_def Let_def
  by (intro case_no_assert frame_no_assert) (auto split: prod.splits)

lemma digits_no_assert:
  "2 \<le> length (out_buf w) \<Longrightarrow> liballuris_digits h v w \<noteq> Inl Assert_Failed"
  unfolding liballuris_digits_def Let_def
  by (intro case_no_assert frame_no_assert) (auto split: prod.splits)

lemma raw_value_no_assert:
  "2 \<le> length (out_buf w) \<Longrightarrow> liballuris_raw_value h v w \<noteq> Inl Assert_Failed"
  unfolding liballuris_raw_value_def Let_def
  by (intro case_no_assert frame_no_assert) (auto split: prod.splits)

lemma raw_pos_peak_no_assert:
  "2 \<le> length (out_buf w) \<Longrightarrow> liballuris_raw_pos_peak h v w \<noteq> Inl Assert_Failed"
  unfolding liballuris_raw_pos_peak_def Let_def
  by (intro case_no_assert frame_no_assert) (auto split: prod.splits)

lemma raw_neg_peak_no_assert:
  "2 \<le> length (out_buf w) \<Longrightarrow> liballuris_raw_neg_peak h v w \<noteq> Inl Assert_Failed"
  unfolding liballuris_raw_neg_peak_def Let_def
  by (intro case_no_assert frame_no_assert) (auto split: prod.splits)

lemma get_pos_limit_no_assert:
  "2 \<le> length (out_buf w) \<Longrightarrow> liballuris_get_pos_limit h v w \<noteq> Inl Assert_Failed"
  unfolding liballuris_get_pos_limit_def Let_def
  by (intro case_no_assert frame_no_assert) (auto split: prod.splits)

lemma get_neg_limit_no_assert:
  "2 \<le> length (out_buf w) \<Longrightarrow> liballuris_get_neg_limit h v w \<noteq> Inl Assert_Failed"
  unfolding liballuris_get_neg_limit_def Let_def
  by (intro case_no_assert frame_no_assert) (auto split: prod.splits)

lemma cyclic_measurement_no_assert:
  "2 \<le> length (out_buf w) \<Longrightarrow> liballuris_cyclic_measurement h enable len w \<noteq> Inl Assert_Failed"
  unfolding liballuris_cyclic_measurement_def Let_def
  by (auto intro!: bulk_transfer_no_assert)

lemma poll_measurement_no_assert:
  "liballuris_poll_measurement h buf len w \<noteq> Inl Assert_Failed"
  unfolding liballuris_poll_measurement_def
  by (intro case_no_assert bulk_transfer_no_assert) (auto split: prod.splits)

lemma set_limit_no_assert:
  "3 \<le> length (out_buf w) \<Longrightarrow>
   liballuris_device_bulk_transfer h 6 st 6 rt
     (w\<lparr>out_buf := memcpy_at ((out_buf w)[0 := 0x18, 1 := 6, 2 := b2]) 3 (int_bytes limit) 3\<rparr>)
     \<noteq> Inl Assert_Failed"
  by (intro bulk_transfer_no_assert) (simp add: memcpy_at_def nth_append)

lemma set_mode_no_assert:
  assumes "2 \<le> length (out_buf w)"
  shows "liballuris_set_mode h mode w \<noteq> Inl Assert_Failed"
proof (cases "mode < 0 \<or> mode > 3")
  case True
  then show ?thesis by (simp add: liballuris_set_mode_def)
next
  case False
  have "(case liballuris_device_bulk_transfer h 3 (DEFAULT_SEND_TIMEOUT h) 3
                (DEFAULT_RECEIVE_TIMEOUT h)
                (w\<lparr>out_buf := (out_buf w)[0 := 0x04, 1 := 3, 2 := word_of_int mode]\<rparr>) of
          Inl f \<Rightarrow> Inl f
        | Inr (ret, w1) \<Rightarrow>
            if uint (in_buf w1 ! 2) \<noteq> mode then Inr (LIBALLURIS_DEVICE_BUSY, w1)
            else Inr (ret, w1)) \<noteq> Inl Assert_Failed"
    by (intro case_no_assert frame_no_assert assms) (auto split: prod.splits)
  with False show ?thesis by (simp add: liballuris_set_mode_def Let_def)
qed

lemma get_mode_no_assert:
  "2 \<le> length (out_buf w) \<Longrightarrow> liballuris_get_mode h mode w \<noteq> Inl Assert_Failed"
  unfolding liballuris_get_mode_def Let_def
  by (intro case_no_assert bulk_transfer_no_assert) (auto split: prod.splits)

lemma start_measurement_no_assert:
  assumes "2 \<le> length (out_buf w)" and "int (length (in_buf w)) = DEFAULT_RECV_BUF_LEN h"
  shows "liballuris_start_measurement h w \<noteq> Inl Assert_Failed"
  unfolding liballuris_start_measurement_def Let_def
proof (intro case_no_assert frame_no_assert assms(1))
  let ?w0 = "w\<lparr>out_buf := (out_buf w)[0 := 0x1C, 1 := 3, 2 := 1]\<rparr>"
  fix x
  assume t: "liballuris_device_bulk_transfer h 3 (DEFAULT_SEND_TIMEOUT h) 3
               (DEFAULT_RECEIVE_TIMEOUT h) ?w0 = Inr x"
  obtain ret w1 where x: "x = (ret, w1)" by (cases x) auto
  have "kept ?w0 w1" using bulk_transfer_kept [OF t [unfolded x]] assms(2) by simp
  then have len: "2 \<le> length (out_buf (snd (read_uninit w1)))"
    "int (length (in_buf (snd (read_uninit w1)))) = DEFAULT_RECV_BUF_LEN h"
    using assms by (simp_all add: kept_def read_uninit_def)
  have "(case start_loop h 20 (fst (read_uninit w1)) (snd (read_uninit w1)) of
           Inl f \<Rightarrow> Inl f
         | Inr (ret', timeout, w3) \<Rightarrow>
             Inr (if timeout = 0 then LIBALLURIS_DEVICE_BUSY else ret', w3)) \<noteq> Inl Assert_Failed"
    by (intro case_no_assert start_loop_no_assert len) (auto split: prod.splits)
  then show "(case x of (ret, w1) \<Rightarrow>
            if ret = LIBALLURIS_SUCCESS then
              (case read_uninit w1 of (state, w2) \<Rightarrow>
                 (case start_loop h 20 state w2 of Inl f \<Rightarrow> Inl f
                  | Inr (ret', timeout, w3) \<Rightarrow>
                      Inr (if timeout = 0 then LIBALLURIS_DEVICE_BUSY else ret', w3)))
            else Inr (ret, w1)) \<noteq> Inl Assert_Failed"
    by (cases "read_uninit w1") (auto simp add: x)
qed simp

lemma stop_measurement_no_assert:
  assumes "2 \<le> length (out_buf w)" and "int (length (in_buf w)) = DEFAULT_RECV_BUF_LEN h"
  shows "liballuris_stop_measurement h w \<noteq> Inl Assert_Failed"
  unfolding liballuris_stop_measurement_def Let_def
proof (intro case_no_assert frame_no_assert assms(1))
  let ?w0 = "w\<lparr>out_buf := (out_buf w)[0 := 0x1C, 1 := 3, 2 := 0]\<rparr>"
  fix x
  assume t: "liballuris_device_bulk_transfer h 3 (DEFAULT_SEND_TIMEOUT h) 3
               (DEFAULT_RECEIVE_TIMEOUT h) ?w0 = Inr x"
  obtain ret w1 where x: "x = (ret, w1)" by (cases x) auto
  have "kept ?w0 w1" using bulk_transfer_kept [OF t [unfolded x]] assms(2) by simp
  then have len: "2 \<le> length (out_buf (snd (read_uninit w1)))"
    "int (length (in_buf (snd (read_uninit w1)))) = DEFAULT_RECV_BUF_LEN h"
    using assms by (simp_all add: kept_def read_uninit_def)
  have "(case stop_loop h 10 (fst (read_uninit w1)) (snd (read_uninit w1)) of
           Inl f \<Rightarrow> Inl f
         | Inr (ret', timeout, w3) \<Rightarrow>
             Inr (if timeout = 0 then LIBALLURIS_DEVICE_BUSY else ret', w3)) \<noteq> Inl Assert_Failed"
    by (intro case_no_assert stop_loop_no_assert len) (auto split: prod.splits)
  then show "(case x of (ret, w1) \<Rightarrow>
            if ret = LIBUSB_SUCCESS then
              (case read_uninit w1 of (state, w2) \<Rightarrow>
                 (case stop_loop h 10 state w2 of Inl f \<Rightarrow> Inl f
                  | Inr (ret', timeout, w3) \<Rightarrow>
                      Inr (if timeout = 0 then LIBALLURIS_DEVICE_BUSY else ret', w3)))
            else Inr (ret, w1)) \<noteq> Inl Assert_Failed"
    by (cases "read_uninit w1") (auto simp add: x)
qed simp


text \<open>
  C9. Every command that sends a frame has stored the send length in
  \<^verbatim>\<open>out_buf[1]\<close> when it calls the transaction primitive, also inside the polling
  loops, and \<^verbatim>\<open>liballuris_poll_measurement\<close> sends nothing: no command of the library
  ends in a failed \<^verbatim>\<open>assert (out_buf[1] == send_len)\<close>.
\<close>

theorem frame_length_assertion_holds:
  assumes "wf_header h" and "wf_world h w"
  shows "liballuris_serial_number h buf len w \<noteq> Inl Assert_Failed
       \<and> liballuris_digits h v w \<noteq> Inl Assert_Failed
       \<and> liballuris_raw_value h v w \<noteq> Inl Assert_Failed
       \<and> liballuris_raw_pos_peak h v w \<noteq> Inl Assert_Failed
       \<and> liballuris_raw_neg_peak h v w \<noteq> Inl Assert_Failed
       \<and> liballuris_read_state h state timeout w \<noteq> Inl Assert_Failed
       \<and> liballuris_cyclic_measurement h enable n w \<noteq> Inl Assert_Failed
       \<and> liballuris_poll_measurement h samples n w \<noteq> Inl Assert_Failed
       \<and> liballuris_tare h w \<noteq> Inl Assert_Failed
       \<and> liballuris_clear_pos_peak h w \<noteq> Inl Assert_Failed
       \<and> liballuris_clear_neg_peak h w \<noteq> Inl Assert_Failed
       \<and> liballuris_start_measurement h w \<noteq> Inl Assert_Failed
       \<and> liballuris_stop_measurement h w \<noteq> Inl Assert_Failed
       \<and> liballuris_set_pos_limit h limit w \<noteq> Inl Assert_Failed
       \<and> liballuris_set_neg_limit h limit w \<noteq> Inl Assert_Failed
       \<and> liballuris_get_pos_limit h v w \<noteq> Inl Assert_Failed
       \<and> liballuris_get_neg_limit h v w \<noteq> Inl Assert_Failed
       \<and> liballuris_set_mode h mode w \<noteq> Inl Assert_Failed
       \<and> liballuris_get_mode h mode w \<noteq> Inl Assert_Failed"
proof -
  have l2: "2 \<le> length (out_buf w)" and l3: "3 \<le> length (out_buf w)"
    using wf_nth1 [OF assms] by simp_all
  have li: "int (length (in_buf w)) = DEFAULT_RECV_BUF_LEN h"
    using assms(2) by (simp add: wf_world_def)
  show ?thesis
    unfolding liballuris_tare_def liballuris_clear_pos_peak_def liballuris_clear_neg_peak_def
      liballuris_set_pos_limit_def liballuris_set_neg_limit_def
    by (intro conjI serial_number_no_assert digits_no_assert raw_value_no_assert
          raw_pos_peak_no_assert raw_neg_peak_no_assert get_pos_limit_no_assert
          get_neg_limit_no_assert read_state_no_assert
          cyclic_measurement_no_assert poll_measurement_no_assert frame_no_assert
          start_measurement_no_assert stop_measurement_no_assert set_limit_no_assert
          set_mode_no_assert get_mode_no_assert l2 l3 li) simp_all
qed

text \<open>
  The assertion is not idle: the primitive called with a frame whose length byte is 0
  and a send length of 3 fails it.
\<close>

lemma bulk_transfer_assertion_can_fail:
  "liballuris_device_bulk_transfer header_10_64 3 10 3 100 (boot (script []) (\<lambda>i. 0))
     = Inl Assert_Failed"
  by (simp add: liballuris_device_bulk_transfer_def header_10_64_def boot_def)

theorem frame_length_assertion_holds_witness:
  "liballuris_serial_number header_10_64 [] 0 (boot (script []) (\<lambda>i. 0)) \<noteq> Inl Assert_Failed
   \<and> liballuris_cyclic_measurement header_10_64 1 19 (boot (script []) (\<lambda>i. 0)) \<noteq> Inl Assert_Failed
   \<and> liballuris_start_measurement header_10_64 (boot (script []) (\<lambda>i. 0)) \<noteq> Inl Assert_Failed
   \<and> liballuris_stop_measurement header_10_64 (boot (script []) (\<lambda>i. 0)) \<noteq> Inl Assert_Failed
   \<and> liballuris_set_pos_limit header_10_64 (- 5) (boot (script []) (\<lambda>i. 0)) \<noteq> Inl Assert_Failed
   \<and> liballuris_get_mode header_10_64 0 (boot (script []) (\<lambda>i. 0)) \<noteq> Inl Assert_Failed"
proof -
  have "wf_header header_10_64" and "wf_world header_10_64 (boot (script []) (\<lambda>i. 0))"
    by (simp_all add: wf_header_def wf_world_def header_10_64_def boot_def)
  from frame_length_assertion_holds [OF this, of "[]" 0 0 0 0 1 19 "[]" "- 5" 0]
  show ?thesis by blast
qed

section \<open>Starting and stopping a measurement\<close>

text \<open>
  A device that accepts the start command and reports \<^verbatim>\<open>measuring\<close> for the first
  time in the reply to the twentieth state read (transfer 41; OUT transfers have even
  numbers), and one that accepts the stop command and has left \<^verbatim>\<open>measuring\<close> for
  the first time in the reply to the tenth state read (transfer 21).
\<close>

definition slow_start_dev :: "nat \<Rightarrow> xfer" where
  "slow_start_dev i =
     (if even i then Xfer 0 3 []
      else if i = 1 then Xfer 0 3 [0x1C, 3, 1]
      else Xfer 0 6 [0x46, 6, 2, 0, 0, if i = 41 then 0x80 else 0])"

definition slow_stop_dev :: "nat \<Rightarrow> xfer" where
  "slow_stop_dev i =
     (if even i then Xfer 0 3 []
      else if i = 1 then Xfer 0 3 [0x1C, 3, 0]
      else Xfer 0 6 [0x46, 6, 2, 0, 0, if i = 21 then 0 else 0x80])"

text \<open>
  C4 (what the code does at the last poll). With \<open>slow_start_dev\<close> the twentieth
  read succeeds and reports \<^verbatim>\<open>measuring\<close>, after 19 sleeps; the loop ends with
  \<^verbatim>\<open>timeout == 0\<close>, and the test \<^verbatim>\<open>if (! timeout)\<close> behind the loop turns the result
  into \<^verbatim>\<open>LIBALLURIS_DEVICE_BUSY\<close>. \<^verbatim>\<open>liballuris_stop_measurement\<close> does the same at
  its tenth read with \<open>slow_stop_dev\<close>.
\<close>

theorem measurement_last_poll_is_busy:
  "(case liballuris_start_measurement header_10_64 (boot slow_start_dev (\<lambda>i. 0)) of
      Inl f \<Rightarrow> False
    | Inr (ret, w') \<Rightarrow>
        ret = LIBALLURIS_DEVICE_BUSY \<and> ncalls w' = 42
        \<and> take 6 (in_buf w') = [0x46, 6, 2, 0, 0, 0x80]
        \<and> measuring header_10_64 (char_to_int24 0 (drop 3 (in_buf w')))
        \<and> length (filter (\<lambda>e. e = Usleep 20000) (trace w')) = 19)
   \<and> (case liballuris_stop_measurement header_10_64 (boot slow_stop_dev (\<lambda>i. 0)) of
      Inl f \<Rightarrow> False
    | Inr (ret, w') \<Rightarrow>
        ret = LIBALLURIS_DEVICE_BUSY \<and> ncalls w' = 22
        \<and> take 6 (in_buf w') = [0x46, 6, 2, 0, 0, 0]
        \<and> \<not> measuring header_10_64 (char_to_int24 0 (drop 3 (in_buf w')))
        \<and> length (filter (\<lambda>e. e = Usleep 20000) (trace w')) = 9)"
  by (simp add: model_defs liballuris_start_measurement_def liballuris_stop_measurement_def
        liballuris_read_state_def start_loop.simps stop_loop.simps measuring_def
        char_to_int24_def char_to_uint24_def int_bytes_def bytes_int_def slow_start_dev_def
        slow_stop_dev_def take_update)


theorem measurement_last_poll_is_busy_witness:
  "(\<exists>w'. liballuris_start_measurement header_10_64 (boot slow_start_dev (\<lambda>i. 0))
            = Inr (LIBALLURIS_DEVICE_BUSY, w') \<and> ncalls w' = 42)
   \<and> (\<exists>w'. liballuris_stop_measurement header_10_64 (boot slow_stop_dev (\<lambda>i. 0))
            = Inr (LIBALLURIS_DEVICE_BUSY, w') \<and> ncalls w' = 22)"
  using measurement_last_poll_is_busy
  by (auto split: sum.splits)

end
